theory Spec2Isabelle
  imports Main "HOL-Library.List_Lexorder"
begin

section \<open>Python values\<close>

subsection \<open>Strings\<close>

text \<open>
  A Python \<^verbatim>\<open>str\<close> is a sequence of Unicode code points, and \<^verbatim>\<open>len\<close>,
  \<^verbatim>\<open>startswith\<close> and the regular expressions of module \<^verbatim>\<open>re\<close> count code
  points. A string is therefore a list of code points, each a natural number;
  \<open>ustr\<close> turns an ASCII literal into such a list. The order on these lists is
  the lexicographic order of the code points, which is also the order of their
  UTF-8 encodings (the BINARY collation of SQLite).
\<close>

type_synonym pystr = "nat list"

abbreviation ustr :: "string \<Rightarrow> pystr" where
  "ustr s \<equiv> map of_char s"

text \<open>
  \<^verbatim>\<open>\d\<close> in a \<^verbatim>\<open>str\<close> pattern matches every Unicode decimal digit (category Nd).
  Below code point 128 these are exactly \<^verbatim>\<open>0\<close> to \<^verbatim>\<open>9\<close>; the rest of the table
  belongs to the Unicode database of the interpreter and is the parameter \<open>nd\<close>.
\<close>

definition is_digit :: "(nat \<Rightarrow> bool) \<Rightarrow> nat \<Rightarrow> bool" where
  "is_digit nd c = (if c < 128 then 48 \<le> c \<and> c \<le> 57 else nd c)"

text \<open>The table with no decimal digit beyond ASCII, for inputs that are ASCII anyway.\<close>

definition ascii_nd :: "nat \<Rightarrow> bool" where
  "ascii_nd c = False"

text \<open>\<^verbatim>\<open>re.sub(r'\D', '', s)\<close>: every character that is not a digit is removed.\<close>

definition sub_non_digits :: "(nat \<Rightarrow> bool) \<Rightarrow> pystr \<Rightarrow> pystr" where
  "sub_non_digits nd s = filter (is_digit nd) s"

text \<open>\<^verbatim>\<open>s.startswith(p)\<close>\<close>

definition startswith :: "pystr \<Rightarrow> pystr \<Rightarrow> bool" where
  "startswith s p = (take (length p) s = p)"

subsection \<open>Dates\<close>

text \<open>
  A \<^verbatim>\<open>datetime.date\<close> is a day of the proleptic Gregorian calendar between
  0001-01-01 and 9999-12-31; it is represented by its ordinal
  (\<^verbatim>\<open>date.toordinal()\<close>), 1 for the first and \<open>MAXORDINAL\<close> for the last.
  \<^verbatim>\<open>date + timedelta(days=n)\<close> raises \<^verbatim>\<open>OverflowError\<close> outside that range, and
  \<^verbatim>\<open>(a - b).days\<close> is the difference of the ordinals.
\<close>

type_synonym date = int

definition MAXORDINAL :: int where
  "MAXORDINAL = 3652059"

definition valid_date :: "date \<Rightarrow> bool" where
  "valid_date d = (1 \<le> d \<and> d \<le> MAXORDINAL)"

datatype error = ValueError | OverflowError | KeyError pystr | IndexError | UnicodeEncodeError

definition date_add :: "date \<Rightarrow> int \<Rightarrow> error + date" where
  "date_add d n = (let o' = d + n in if 0 < o' \<and> o' \<le> MAXORDINAL then Inr o' else Inl OverflowError)"

text \<open>
  The ordinal of a calendar date, as \<^verbatim>\<open>datetime\<close> computes it
  (\<^verbatim>\<open>_is_leap\<close>, \<^verbatim>\<open>_days_before_year\<close>, \<^verbatim>\<open>_days_before_month\<close>, \<^verbatim>\<open>_ymd2ord\<close>); it
  is used to write dates as year, month and day.
\<close>

definition is_leap :: "int \<Rightarrow> bool" where
  "is_leap year = (year mod 4 = 0 \<and> (year mod 100 \<noteq> 0 \<or> year mod 400 = 0))"

definition days_before_year :: "int \<Rightarrow> int" where
  "days_before_year year = (let y = year - 1 in y * 365 + y div 4 - y div 100 + y div 400)"

definition days_before_month :: "int \<Rightarrow> nat \<Rightarrow> int" where
  "days_before_month year month =
     [0, 0, 31, 59, 90, 120, 151, 181, 212, 243, 273, 304, 334] ! month
     + (if month > 2 \<and> is_leap year then 1 else 0)"

definition ymd2ord :: "int \<Rightarrow> nat \<Rightarrow> int \<Rightarrow> date" where
  "ymd2ord year month day = days_before_year year + days_before_month year month + day"

text \<open>
  A payment date reaches the code as a \<^verbatim>\<open>date\<close> or as a \<^verbatim>\<open>str\<close>, which
  \<^verbatim>\<open>datetime.strptime(s, '%Y-%m-%d').date()\<close> turns into a date or rejects with
  \<^verbatim>\<open>ValueError\<close>. The text itself plays no other part, so a \<^verbatim>\<open>str\<close> is
  represented by the outcome of that call: the date, or \<open>None\<close> when it raises.
\<close>

datatype date_arg = DateObj date | DateStr "date option"

text \<open>
  \<^verbatim>\<open>
  if isinstance(payment_date, str):
      payment_date = datetime.strptime(payment_date, '%Y-%m-%d').date()
  \<close>
\<close>

definition to_date :: "date_arg \<Rightarrow> error + date" where
  "to_date payment_date =
     (case payment_date of
        DateObj d \<Rightarrow> Inr d
      | DateStr None \<Rightarrow> Inl ValueError
      | DateStr (Some d) \<Rightarrow> Inr d)"

section \<open>Utility functions\<close>

text \<open>
  \<^verbatim>\<open>
  def format_phone_number(phone):
      phone = re.sub(r'\D', '', phone)
      if phone.startswith('91') and len(phone) == 12:
          return f"+{phone}"
      if len(phone) == 10:
          return f"+91{phone}"
      if len(phone) > 10:
          return f"+{phone}"
      return phone
  \<close>
\<close>

definition format_phone_number :: "(nat \<Rightarrow> bool) \<Rightarrow> pystr \<Rightarrow> pystr" where
  "format_phone_number nd phone0 =
     (let phone = sub_non_digits nd phone0 in
      if startswith phone (ustr ''91'') \<and> length phone = 12 then ustr ''+'' @ phone
      else if length phone = 10 then ustr ''+91'' @ phone
      else if length phone > 10 then ustr ''+'' @ phone
      else phone)"

text \<open>
  \<^verbatim>\<open>
  def validate_phone_number(phone):
      digits_only = re.sub(r'\D', '', phone)
      if len(digits_only) == 10:
          return True
      elif len(digits_only) == 12 and digits_only.startswith('91'):
          return True
      elif len(digits_only) == 13 and phone.startswith('+91'):
          return True
      return False
  \<close>
\<close>

definition validate_phone_number :: "(nat \<Rightarrow> bool) \<Rightarrow> pystr \<Rightarrow> bool" where
  "validate_phone_number nd phone =
     (let digits_only = sub_non_digits nd phone in
      if length digits_only = 10 then True
      else if length digits_only = 12 \<and> startswith digits_only (ustr ''91'') then True
      else if length digits_only = 13 \<and> startswith phone (ustr ''+91'') then True
      else False)"

text \<open>
  The validation rule in the words of the specification: exactly 10 digits, or 12
  digits starting with 91, or a 13-character input starting with the literal +91.
\<close>

definition valid_phone_as_specified :: "(nat \<Rightarrow> bool) \<Rightarrow> pystr \<Rightarrow> bool" where
  "valid_phone_as_specified nd phone =
     (let digits = sub_non_digits nd phone in
      length digits = 10
      \<or> (length digits = 12 \<and> startswith digits (ustr ''91''))
      \<or> (length phone = 13 \<and> startswith phone (ustr ''+91'')))"

section \<open>The database manager\<close>

subsection \<open>Tables\<close>

text \<open>
  The rows of the tables \<^verbatim>\<open>members\<close>, \<^verbatim>\<open>payment_history\<close>, \<^verbatim>\<open>reminder_logs\<close>
  and \<^verbatim>\<open>member_checkins\<close>, with the columns the operations below read or
  write. The amount is a floating-point number that is only stored and handed on, so
  its type is left open. The column \<^verbatim>\<open>payment_date\<close> holds the ISO text that the
  \<^verbatim>\<open>sqlite3\<close> adapter writes for the date bound at insertion; a row is modelled
  by that date.
\<close>

record 'a member =
  m_id :: int
  m_name :: pystr
  m_phone :: pystr
  m_email :: pystr
  m_membership_type :: pystr
  m_amount :: 'a
  m_payment_date :: date
  m_reminder_days :: int

record 'a payment =
  ph_id :: int
  ph_member_id :: int
  ph_amount :: 'a
  ph_payment_date :: date
  ph_payment_method :: pystr

record reminder_log =
  rl_id :: int
  rl_member_id :: int
  rl_reminder_type :: pystr
  rl_message :: pystr

record checkin =
  ci_id :: int
  ci_member_id :: int
  ci_member_name :: pystr

record 'a database =
  members :: "'a member list"
  payment_history :: "'a payment list"
  reminder_logs :: "reminder_log list"
  member_checkins :: "checkin list"

subsection \<open>Due dates\<close>

text \<open>
  \<^verbatim>\<open>
  def calculate_next_due_date(self, payment_date, membership_type):
      if isinstance(payment_date, str):
          payment_date = datetime.strptime(payment_date, '%Y-%m-%d').date()
      if membership_type == "Monthly Subscriber":
          return payment_date + timedelta(days=30)
      elif membership_type == "Quarterly":
          return payment_date + timedelta(days=90)
      elif membership_type == "Half Yearly":
          return payment_date + timedelta(days=180)
      elif membership_type == "Annual":
          return payment_date + timedelta(days=365)
      else:
          return payment_date + timedelta(days=30)  # Default to monthly
  \<close>
\<close>

definition calculate_next_due_date :: "date_arg \<Rightarrow> pystr \<Rightarrow> error + date" where
  "calculate_next_due_date payment_date0 membership_type =
     (case to_date payment_date0 of
        Inl e \<Rightarrow> Inl e
      | Inr payment_date \<Rightarrow>
          if membership_type = ustr ''Monthly Subscriber'' then date_add payment_date 30
          else if membership_type = ustr ''Quarterly'' then date_add payment_date 90
          else if membership_type = ustr ''Half Yearly'' then date_add payment_date 180
          else if membership_type = ustr ''Annual'' then date_add payment_date 365
          else date_add payment_date 30)"

text \<open>
  The offset of a tier in the words of the specification: 30, 90, 180 and 365 days
  for Monthly, Quarterly, HalfYearly and Annual (the strings the application stores
  for them), and 30 days for every other string.
\<close>

definition tier_offset :: "pystr \<Rightarrow> int" where
  "tier_offset t =
     (if t = ustr ''Monthly Subscriber'' then 30
      else if t = ustr ''Quarterly'' then 90
      else if t = ustr ''Half Yearly'' then 180
      else if t = ustr ''Annual'' then 365
      else 30)"

subsection \<open>Active subscriptions\<close>

text \<open>
  SQLite's \<^verbatim>\<open>date(X, '+n days')\<close> on the ISO text of a date: the ISO text of the
  date n days later, or NULL when that day lies after 9999-12-31, the last day SQLite
  represents. ISO texts compare as the dates they denote, and a comparison with NULL
  does not select the row.
\<close>

definition sqlite_date_plus_days :: "date \<Rightarrow> int \<Rightarrow> date option" where
  "sqlite_date_plus_days d n = (if d + n \<le> MAXORDINAL then Some (d + n) else None)"

text \<open>
  \<^verbatim>\<open>
  def get_active_subscriptions(self):
      """Get number of active subscriptions (not overdue)"""
      ...
      today = datetime.now().date()
      cursor.execute('''
      SELECT COUNT(*) FROM members m
      WHERE date(m.payment_date, '+30 days') >= date(?)
      ''', (today,))
      count = cursor.fetchone()[0]
      ...
      return count
  \<close>
  The clock is read once; its date is the argument \<open>today\<close>.
\<close>

definition active_where :: "date \<Rightarrow> 'a member \<Rightarrow> bool" where
  "active_where today m =
     (case sqlite_date_plus_days (m_payment_date m) 30 of
        None \<Rightarrow> False
      | Some d \<Rightarrow> d \<ge> today)"

definition get_active_subscriptions :: "'a database \<Rightarrow> date \<Rightarrow> int" where
  "get_active_subscriptions db today = int (length (filter (active_where today) (members db)))"

subsection \<open>Deleting a member\<close>

text \<open>
  \<^verbatim>\<open>
  def delete_member(self, member_id):
      """Delete a member and all related records"""
      try:
          conn = sqlite3.connect(self.db_path)
          cursor = conn.cursor()
          cursor.execute('DELETE FROM payment_history WHERE member_id = ?', (member_id,))
          cursor.execute('DELETE FROM reminder_logs WHERE member_id = ?', (member_id,))
          cursor.execute('DELETE FROM member_checkins WHERE member_id = ?', (member_id,))
          cursor.execute('DELETE FROM members WHERE id = ?', (member_id,))
          conn.commit()
          conn.close()
          return True
      except sqlite3.Error as e:
          print(f"Database error: {e}")
          return False
  \<close>
  Whether SQLite raises is decided outside the program (a locked or unreadable
  file); it is the argument \<open>outcome\<close>. When it raises, nothing was committed and the
  tables are as before.
\<close>

datatype sqlite_outcome = SqliteOk | SqliteError

definition delete_member :: "sqlite_outcome \<Rightarrow> 'a database \<Rightarrow> int \<Rightarrow> bool \<times> 'a database" where
  "delete_member outcome db member_id =
     (case outcome of
        SqliteError \<Rightarrow> (False, db)
      | SqliteOk \<Rightarrow>
          (let db1 = db\<lparr>payment_history := filter (\<lambda>r. ph_member_id r \<noteq> member_id) (payment_history db)\<rparr>;
               db2 = db1\<lparr>reminder_logs := filter (\<lambda>r. rl_member_id r \<noteq> member_id) (reminder_logs db1)\<rparr>;
               db3 = db2\<lparr>member_checkins := filter (\<lambda>r. ci_member_id r \<noteq> member_id) (member_checkins db2)\<rparr>;
               db4 = db3\<lparr>members := filter (\<lambda>r. m_id r \<noteq> member_id) (members db3)\<rparr>
           in (True, db4)))"

section \<open>The message manager\<close>

subsection \<open>The link generator\<close>

text \<open>\<^verbatim>\<open>s.replace(c, "")\<close> for a one-character \<^verbatim>\<open>c\<close>: every occurrence is removed.\<close>

definition replace_char :: "nat \<Rightarrow> pystr \<Rightarrow> pystr" where
  "replace_char c s = filter (\<lambda>x. x \<noteq> c) s"

text \<open>
  \<^verbatim>\<open>urllib.parse.quote(message)\<close> with its defaults: the string is encoded as
  UTF-8 (strictly: a surrogate code point raises \<^verbatim>\<open>UnicodeEncodeError\<close>), and every
  byte that is not a letter, a digit or one of \<^verbatim>\<open>_.-~\<close>, nor the safe character
  \<^verbatim>\<open>/\<close>, becomes \<^verbatim>\<open>%XX\<close> with upper-case hexadecimal digits.
\<close>

definition utf8_char :: "nat \<Rightarrow> nat list option" where
  "utf8_char c =
     (if c < 128 then Some [c]
      else if c < 2048 then Some [192 + c div 64, 128 + c mod 64]
      else if c < 65536 then
        (if 55296 \<le> c \<and> c \<le> 57343 then None
         else Some [224 + c div 4096, 128 + (c div 64) mod 64, 128 + c mod 64])
      else if c \<le> 1114111 then
        Some [240 + c div 262144, 128 + (c div 4096) mod 64, 128 + (c div 64) mod 64, 128 + c mod 64]
      else None)"

fun utf8_encode :: "pystr \<Rightarrow> error + nat list" where
  "utf8_encode [] = Inr []"
| "utf8_encode (c # cs) =
     (case utf8_char c of
        None \<Rightarrow> Inl UnicodeEncodeError
      | Some bs \<Rightarrow> (case utf8_encode cs of Inl e \<Rightarrow> Inl e | Inr rest \<Rightarrow> Inr (bs @ rest)))"

definition always_safe :: "nat \<Rightarrow> bool" where
  "always_safe b =
     ((65 \<le> b \<and> b \<le> 90) \<or> (97 \<le> b \<and> b \<le> 122) \<or> (48 \<le> b \<and> b \<le> 57)
      \<or> b = 95 \<or> b = 46 \<or> b = 45 \<or> b = 126)"

definition hex_digit :: "nat \<Rightarrow> nat" where
  "hex_digit n = (if n < 10 then 48 + n else 55 + n)"

definition quote_byte :: "nat \<Rightarrow> pystr" where
  "quote_byte b =
     (if always_safe b \<or> b = 47 then [b]
      else [37, hex_digit (b div 16), hex_digit (b mod 16)])"

definition quote :: "pystr \<Rightarrow> error + pystr" where
  "quote string =
     (case utf8_encode string of
        Inl e \<Rightarrow> Inl e
      | Inr bs \<Rightarrow> Inr (concat (map quote_byte bs)))"

text \<open>
  \<^verbatim>\<open>
  def send_whatsapp_url(self, phone, message):
      """Generate WhatsApp URL for manual sending"""
      # Format phone number for WhatsApp URL
      formatted_phone = phone.replace("+", "").replace(" ", "").replace("-", "")
      # URL encode the message
      import urllib.parse
      encoded_message = urllib.parse.quote(message)
      whatsapp_url = f"https://wa.me/{formatted_phone}?text={encoded_message}"
      return whatsapp_url
  \<close>
\<close>

definition send_whatsapp_url :: "pystr \<Rightarrow> pystr \<Rightarrow> error + pystr" where
  "send_whatsapp_url phone message =
     (let formatted_phone = replace_char 45 (replace_char 32 (replace_char 43 phone)) in
      case quote message of
        Inl e \<Rightarrow> Inl e
      | Inr encoded_message \<Rightarrow>
          Inr (ustr ''https://wa.me/'' @ formatted_phone @ ustr ''?text='' @ encoded_message))"

text \<open>
  The link in the words of the specification: the digits part is the phone number
  with all non-digit characters stripped.
\<close>

definition whatsapp_url_as_specified :: "(nat \<Rightarrow> bool) \<Rightarrow> pystr \<Rightarrow> pystr \<Rightarrow> error + pystr" where
  "whatsapp_url_as_specified nd phone message =
     (case quote message of
        Inl e \<Rightarrow> Inl e
      | Inr encoded_message \<Rightarrow>
          Inr (ustr ''https://wa.me/'' @ sub_non_digits nd phone @ ustr ''?text='' @ encoded_message))"

subsection \<open>Python's \<^verbatim>\<open>str.format\<close>\<close>

text \<open>
  \<^verbatim>\<open>template.format(**kwargs)\<close> reads the template from left to right. Text is
  copied; \<^verbatim>\<open>{{\<close> and \<^verbatim>\<open>}}\<close> stand for one brace; any other \<^verbatim>\<open>}\<close>, and a
  \<^verbatim>\<open>{\<close> at the very end, raise \<^verbatim>\<open>ValueError\<close>. Any other \<^verbatim>\<open>{\<close> opens a
  replacement field, which runs to the next \<^verbatim>\<open>}\<close> (\<^verbatim>\<open>ValueError\<close> when there is
  none). A field that is a plain name is looked up among the keyword arguments
  (\<^verbatim>\<open>KeyError\<close> when it is missing) and replaced by \<^verbatim>\<open>format(value, '')\<close>; the
  empty field \<^verbatim>\<open>{}\<close> asks for the first positional argument, and there is none
  (\<^verbatim>\<open>IndexError\<close>).

  Fields of any other shape (a conversion \<^verbatim>\<open>!r\<close>, a format specification after
  \<^verbatim>\<open>:\<close>, an attribute or index lookup with \<^verbatim>\<open>.\<close> or \<^verbatim>\<open>[\<close>, a nested \<^verbatim>\<open>{\<close>, a
  number) depend on the formatting protocol of the argument's type. What the library
  makes of the template from such a field on is not fixed here: it is the parameter
  \<open>rest\<close>, applied to the remaining template.
\<close>

datatype field_scan = Simple pystr pystr | Unterminated | Delegated

fun scan_field :: "pystr \<Rightarrow> field_scan" where
  "scan_field [] = Unterminated"
| "scan_field (c # cs) =
     (if c = 125 then Simple [] cs
      else if c = 123 \<or> c = 91 \<or> c = 58 \<or> c = 33 then Delegated
      else (case scan_field cs of
              Simple name after \<Rightarrow> Simple (c # name) after
            | Unterminated \<Rightarrow> Unterminated
            | Delegated \<Rightarrow> Delegated))"

definition emit :: "pystr \<Rightarrow> error + pystr \<Rightarrow> error + pystr" where
  "emit text r = (case r of Inl e \<Rightarrow> Inl e | Inr out \<Rightarrow> Inr (text @ out))"

function str_format ::
  "(nat \<Rightarrow> bool) \<Rightarrow> (pystr \<Rightarrow> error + pystr) \<Rightarrow> (pystr \<Rightarrow> pystr option) \<Rightarrow> pystr \<Rightarrow> error + pystr"
where
  "str_format nd rest kwargs [] = Inr []"
| "str_format nd rest kwargs (c # cs) =
     (if c = 125 then
        (case cs of
           [] \<Rightarrow> Inl ValueError
         | d # cs' \<Rightarrow> if d = 125 then emit [125] (str_format nd rest kwargs cs') else Inl ValueError)
      else if c = 123 then
        (case cs of
           [] \<Rightarrow> Inl ValueError
         | d # cs' \<Rightarrow>
             if d = 123 then emit [123] (str_format nd rest kwargs cs')
             else
               (case scan_field cs of
                  Unterminated \<Rightarrow> Inl ValueError
                | Delegated \<Rightarrow> rest (c # cs)
                | Simple name after \<Rightarrow>
                    if 46 \<in> set name then rest (c # cs)
                    else if name = [] then Inl IndexError
                    else if list_all (is_digit nd) name then rest (c # cs)
                    else
                      (case kwargs name of
                         None \<Rightarrow> Inl (KeyError name)
                       | Some v \<Rightarrow> emit v (str_format nd rest kwargs after))))
      else emit [c] (str_format nd rest kwargs cs))"
  by pat_completeness auto
termination
proof (relation "measure (\<lambda>(nd, rest, kwargs, t). length t)")
  have shorter: "scan_field cs = Simple name after \<Longrightarrow> length after < length cs"
    for cs name after
    by (induction cs arbitrary: name) (auto split: if_splits field_scan.splits)
  fix nd :: "nat \<Rightarrow> bool" and rest :: "pystr \<Rightarrow> error + pystr"
    and kwargs :: "pystr \<Rightarrow> pystr option" and c d :: nat and cs cs' name after :: pystr
  assume "cs = d # cs'" and "scan_field cs = Simple name after"
  then show "((nd, rest, kwargs, after), nd, rest, kwargs, c # cs)
        \<in> measure (\<lambda>(nd, rest, kwargs, t). length t)"
    using shorter [of cs name after] by simp
qed auto

subsection \<open>Formatting a message\<close>

text \<open>\<^verbatim>\<open>str(n)\<close> for an integer: its decimal digits, with a minus sign when negative.\<close>

fun decimal_digits :: "nat \<Rightarrow> pystr \<Rightarrow> pystr" where
  "decimal_digits n acc =
     (if n < 10 then (48 + n) # acc else decimal_digits (n div 10) ((48 + n mod 10) # acc))"

definition str_int :: "int \<Rightarrow> pystr" where
  "str_int i = (if i < 0 then 45 # decimal_digits (nat (- i)) [] else decimal_digits (nat i) [])"

text \<open>
  \<^verbatim>\<open>date.strftime('%d-%m-%Y')\<close> for the years from 1000 on (the C libraries differ
  in how they pad earlier years): day and month in two digits, the year in four. The
  calendar date of an ordinal is computed as \<^verbatim>\<open>datetime\<close> does (\<^verbatim>\<open>_ord2ymd\<close>).
\<close>

definition ord2ymd :: "date \<Rightarrow> int \<times> nat \<times> int" where
  "ord2ymd ordinal =
     (let n = ordinal - 1;
          n400 = n div 146097; n = n mod 146097;
          n100 = n div 36524; n = n mod 36524;
          n4 = n div 1461; n = n mod 1461;
          n1 = n div 365; n = n mod 365;
          year = n400 * 400 + 1 + n100 * 100 + n4 * 4 + n1
      in if n1 = 4 \<or> n100 = 4 then (year - 1, 12, 31)
         else
           (let month = nat ((n + 50) div 32);
                month = (if days_before_month year month > n then month - 1 else month)
            in (year, month, n - days_before_month year month + 1)))"

definition two_digits :: "int \<Rightarrow> pystr" where
  "two_digits i = (if i < 10 then 48 # str_int i else str_int i)"

definition strftime_dmy :: "date \<Rightarrow> pystr" where
  "strftime_dmy d =
     (case ord2ymd d of
        (year, month, day) \<Rightarrow> two_digits day @ [45] @ two_digits (int month) @ [45] @ str_int year)"

text \<open>
  The parts of the interpreter that \<^verbatim>\<open>format_message\<close> relies on and that are
  not fixed here: the Unicode decimal digits beyond ASCII (they decide whether a
  field name is a number), \<^verbatim>\<open>due_date.strftime('%d-%m-%Y')\<close>, the text of an
  amount (\<^verbatim>\<open>format(amount, '')\<close> for a floating-point number), and the formatting
  of the fields that \<open>str_format\<close> hands on.
\<close>

record 'a runtime =
  rt_nd :: "nat \<Rightarrow> bool"
  rt_strftime :: "date \<Rightarrow> pystr"
  rt_str_amount :: "'a \<Rightarrow> pystr"
  rt_format_rest :: "pystr \<Rightarrow> error + pystr"

text \<open>
  The dictionary \<^verbatim>\<open>member_data\<close>, with the keys that \<^verbatim>\<open>format_message\<close> reads;
  \<open>None\<close> is a missing key, for which \<^verbatim>\<open>.get\<close> supplies the default.
\<close>

record 'a member_data =
  md_member_name :: "pystr option"
  md_amount :: "'a option"
  md_payment_date :: "date_arg option"
  md_membership_type :: "pystr option"

text \<open>
  \<^verbatim>\<open>
  def format_message(self, template, member_data):
      """Format message template with member data"""
      court_name = "KJ Badminton Academy"
      contact_phone = "+91-9876543210"
      payment_date = member_data.get('payment_date', datetime.now().date())
      if isinstance(payment_date, str):
          payment_date = datetime.strptime(payment_date, '%Y-%m-%d').date()
      # Calculate due date
      membership_type = member_data.get('membership_type', 'Monthly Subscriber')
      if membership_type == "Monthly Subscriber":
          due_date = payment_date + timedelta(days=30)
      elif membership_type == "Quarterly":
          due_date = payment_date + timedelta(days=90)
      elif membership_type == "Half Yearly":
          due_date = payment_date + timedelta(days=180)
      elif membership_type == "Annual":
          due_date = payment_date + timedelta(days=365)
      else:
          due_date = payment_date + timedelta(days=30)
      today = datetime.now().date()
      overdue_days = (today - due_date).days if today > due_date else 0
      formatted_message = template.format(
          member_name=member_data.get('member_name', 'Member'),
          amount=member_data.get('amount', 0),
          due_date=due_date.strftime('%d-%m-%Y'),
          membership_type=membership_type,
          overdue_days=overdue_days,
          court_name=court_name,
          phone=contact_phone
      )
      return formatted_message
  \<close>
  The function is modelled in three steps: the due date, the keyword arguments of
  the call of \<^verbatim>\<open>format\<close>, and the call itself. The clock is read twice within the
  call; both readings are the date \<open>today\<close>.
\<close>

definition message_membership_type :: "'a member_data \<Rightarrow> pystr" where
  "message_membership_type member_data =
     (case md_membership_type member_data of None \<Rightarrow> ustr ''Monthly Subscriber'' | Some t \<Rightarrow> t)"

definition message_due_date :: "'a member_data \<Rightarrow> date \<Rightarrow> error + date" where
  "message_due_date member_data today =
     (case to_date (case md_payment_date member_data of None \<Rightarrow> DateObj today | Some p \<Rightarrow> p) of
        Inl e \<Rightarrow> Inl e
      | Inr payment_date \<Rightarrow>
          (let membership_type = message_membership_type member_data in
           if membership_type = ustr ''Monthly Subscriber'' then date_add payment_date 30
           else if membership_type = ustr ''Quarterly'' then date_add payment_date 90
           else if membership_type = ustr ''Half Yearly'' then date_add payment_date 180
           else if membership_type = ustr ''Annual'' then date_add payment_date 365
           else date_add payment_date 30))"

definition message_kwargs :: "'a runtime \<Rightarrow> 'a member_data \<Rightarrow> date \<Rightarrow> date \<Rightarrow> (pystr \<times> pystr) list" where
  "message_kwargs rt member_data due_date today =
     (let court_name = ustr ''KJ Badminton Academy'';
          contact_phone = ustr ''+91-9876543210'';
          overdue_days = (if today > due_date then today - due_date else 0)
      in [(ustr ''member_name'',
             (case md_member_name member_data of None \<Rightarrow> ustr ''Member'' | Some n \<Rightarrow> n)),
          (ustr ''amount'',
             (case md_amount member_data of None \<Rightarrow> str_int 0 | Some a \<Rightarrow> rt_str_amount rt a)),
          (ustr ''due_date'', rt_strftime rt due_date),
          (ustr ''membership_type'', message_membership_type member_data),
          (ustr ''overdue_days'', str_int overdue_days),
          (ustr ''court_name'', court_name),
          (ustr ''phone'', contact_phone)])"

definition format_message :: "'a runtime \<Rightarrow> pystr \<Rightarrow> 'a member_data \<Rightarrow> date \<Rightarrow> error + pystr" where
  "format_message rt template member_data today =
     (case message_due_date member_data today of
        Inl e \<Rightarrow> Inl e
      | Inr due_date \<Rightarrow>
          str_format (rt_nd rt) (rt_format_rest rt)
            (map_of (message_kwargs rt member_data due_date today)) template)"

text \<open>
  The placeholders that the specification calls supported, and the names that the
  call of \<^verbatim>\<open>format\<close> passes.
\<close>

definition supported_placeholders :: "pystr list" where
  "supported_placeholders =
     [ustr ''member_name'', ustr ''amount'', ustr ''due_date'', ustr ''overdue_days'', ustr ''phone'']"

definition passed_names :: "pystr list" where
  "passed_names =
     [ustr ''member_name'', ustr ''amount'', ustr ''due_date'', ustr ''membership_type'',
      ustr ''overdue_days'', ustr ''court_name'', ustr ''phone'']"

text \<open>
  Templates built from pieces: text without braces, the escapes \<^verbatim>\<open>{{\<close> and
  \<^verbatim>\<open>}}\<close>, and placeholders \<^verbatim>\<open>{name}\<close> whose name is not empty, is not a number
  and has none of the characters \<^verbatim>\<open>{ } [ . ! :\<close>. \<open>template_of\<close> writes the pieces
  out; \<open>substitute\<close> is the text they stand for, given the values of the names.
\<close>

datatype piece = Text pystr | OpenBrace | CloseBrace | Placeholder pystr

fun piece_text :: "piece \<Rightarrow> pystr" where
  "piece_text (Text s) = s"
| "piece_text OpenBrace = [123, 123]"
| "piece_text CloseBrace = [125, 125]"
| "piece_text (Placeholder name) = 123 # name @ [125]"

definition template_of :: "piece list \<Rightarrow> pystr" where
  "template_of ps = concat (map piece_text ps)"

definition plain_name :: "(nat \<Rightarrow> bool) \<Rightarrow> pystr \<Rightarrow> bool" where
  "plain_name nd name =
     (name \<noteq> [] \<and> \<not> list_all (is_digit nd) name
      \<and> list_all (\<lambda>c. c \<noteq> 123 \<and> c \<noteq> 125 \<and> c \<noteq> 91 \<and> c \<noteq> 46 \<and> c \<noteq> 33 \<and> c \<noteq> 58) name)"

fun plain_piece :: "(nat \<Rightarrow> bool) \<Rightarrow> piece \<Rightarrow> bool" where
  "plain_piece nd (Text s) = list_all (\<lambda>c. c \<noteq> 123 \<and> c \<noteq> 125) s"
| "plain_piece nd OpenBrace = True"
| "plain_piece nd CloseBrace = True"
| "plain_piece nd (Placeholder name) = plain_name nd name"

fun placeholders :: "piece list \<Rightarrow> pystr list" where
  "placeholders [] = []"
| "placeholders (Placeholder name # ps) = name # placeholders ps"
| "placeholders (p # ps) = placeholders ps"

fun substitute :: "(pystr \<Rightarrow> pystr option) \<Rightarrow> piece list \<Rightarrow> error + pystr" where
  "substitute kwargs [] = Inr []"
| "substitute kwargs (Text s # ps) = emit s (substitute kwargs ps)"
| "substitute kwargs (OpenBrace # ps) = emit [123] (substitute kwargs ps)"
| "substitute kwargs (CloseBrace # ps) = emit [125] (substitute kwargs ps)"
| "substitute kwargs (Placeholder name # ps) =
     (case kwargs name of
        None \<Rightarrow> Inl (KeyError name)
      | Some v \<Rightarrow> emit v (substitute kwargs ps))"


section \<open>The reminder scheduler\<close>

text \<open>
  An entry of the list that \<^verbatim>\<open>get_pending_reminders\<close> returns: the dictionary
  built in its loop, one field for each key.
\<close>

record 'a reminder =
  r_member_id :: int
  r_member_name :: pystr
  r_phone :: pystr
  r_email :: pystr
  r_membership_type :: pystr
  r_amount :: 'a
  r_payment_date :: date
  r_next_due_date :: date
  r_days_remaining :: int
  r_reminder_type :: pystr
  r_reminder_days :: int

text \<open>
  \<^verbatim>\<open>
  def get_pending_reminders(self, db_manager):
      ...
      today = datetime.now().date()
      pending_reminders = []
      cursor.execute('''
      SELECT id, name, phone, email, membership_type, amount, payment_date, reminder_days
      FROM members
      ORDER BY name
      ''')
      members = cursor.fetchall()
      for member in members:
          member_id, name, phone, email, membership_type, amount, payment_date, reminder_days = member
          if isinstance(payment_date, str):
              payment_date = datetime.strptime(payment_date, '%Y-%m-%d').date()
          next_due_date = db_manager.calculate_next_due_date(payment_date, membership_type)
          days_remaining = (next_due_date - today).days
          should_remind = False
          reminder_type = "payment_reminder"
          if days_remaining < 0:
              should_remind = True
              reminder_type = "overdue_reminder"
          elif days_remaining <= reminder_days:
              should_remind = True
              reminder_type = "payment_reminder"
          if should_remind:
              pending_reminders.append({...})
      conn.close()
      return pending_reminders
  \<close>
  The query is the table sorted by name. The cursor returns the payment date as the
  stored ISO text, which \<^verbatim>\<open>strptime\<close> parses back to the date of the row. An
  exception in the loop ends the whole call.
\<close>

definition select_members_order_by_name :: "'a database \<Rightarrow> 'a member list" where
  "select_members_order_by_name db = sort_key m_name (members db)"

definition fetched_payment_date :: "'a member \<Rightarrow> date_arg" where
  "fetched_payment_date m = DateStr (Some (m_payment_date m))"

fun pending_loop :: "date \<Rightarrow> 'a member list \<Rightarrow> 'a reminder list \<Rightarrow> error + 'a reminder list" where
  "pending_loop today [] pending_reminders = Inr pending_reminders"
| "pending_loop today (member # rest) pending_reminders =
     (case to_date (fetched_payment_date member) of
        Inl e \<Rightarrow> Inl e
      | Inr payment_date \<Rightarrow>
          (case calculate_next_due_date (DateObj payment_date) (m_membership_type member) of
             Inl e \<Rightarrow> Inl e
           | Inr next_due_date \<Rightarrow>
               (let days_remaining = next_due_date - today;
                    (should_remind, reminder_type) =
                      (if days_remaining < 0 then (True, ustr ''overdue_reminder'')
                       else if days_remaining \<le> m_reminder_days member then (True, ustr ''payment_reminder'')
                       else (False, ustr ''payment_reminder''))
                in if should_remind
                   then pending_loop today rest
                          (pending_reminders @
                           [\<lparr>r_member_id = m_id member, r_member_name = m_name member,
                             r_phone = m_phone member, r_email = m_email member,
                             r_membership_type = m_membership_type member,
                             r_amount = m_amount member, r_payment_date = payment_date,
                             r_next_due_date = next_due_date, r_days_remaining = days_remaining,
                             r_reminder_type = reminder_type,
                             r_reminder_days = m_reminder_days member\<rparr>])
                   else pending_loop today rest pending_reminders)))"

definition get_pending_reminders :: "'a database \<Rightarrow> date \<Rightarrow> error + 'a reminder list" where
  "get_pending_reminders db today = pending_loop today (select_members_order_by_name db) []"

subsection \<open>The classification in the words of the specification\<close>

text \<open>
  The next due date of a member is the payment date plus the offset of the tier;
  \<open>days_remaining\<close> is that date minus today. A member is pending when
  \<open>days_remaining\<close> is negative (overdue) or between 0 and the member's
  \<open>reminder_days\<close> (due soon); \<open>reminder_entry\<close> is the entry of a pending member.
\<close>

definition due_date_of :: "'a member \<Rightarrow> date" where
  "due_date_of m = m_payment_date m + tier_offset (m_membership_type m)"

definition days_remaining_of :: "date \<Rightarrow> 'a member \<Rightarrow> int" where
  "days_remaining_of today m = due_date_of m - today"

definition pending_as_specified :: "date \<Rightarrow> 'a member \<Rightarrow> bool" where
  "pending_as_specified today m =
     (days_remaining_of today m < 0
      \<or> (0 \<le> days_remaining_of today m \<and> days_remaining_of today m \<le> m_reminder_days m))"

definition reminder_entry :: "date \<Rightarrow> 'a member \<Rightarrow> 'a reminder" where
  "reminder_entry today m =
     \<lparr>r_member_id = m_id m, r_member_name = m_name m, r_phone = m_phone m,
      r_email = m_email m, r_membership_type = m_membership_type m, r_amount = m_amount m,
      r_payment_date = m_payment_date m, r_next_due_date = due_date_of m,
      r_days_remaining = days_remaining_of today m,
      r_reminder_type =
        (if days_remaining_of today m < 0 then ustr ''overdue_reminder''
         else ustr ''payment_reminder''),
      r_reminder_days = m_reminder_days m\<rparr>"


section \<open>Phone numbers\<close>

lemma is_digit_plus: "\<not> is_digit nd 43"
  by (simp add: is_digit_def)

lemma is_digit_nine_one: "is_digit nd 57" "is_digit nd 49"
  by (simp_all add: is_digit_def)

lemma sub_non_digits_idem: "sub_non_digits nd (sub_non_digits nd s) = sub_non_digits nd s"
  by (simp add: sub_non_digits_def)

lemma sub_non_digits_all: "list_all (is_digit nd) (sub_non_digits nd s)"
  by (simp add: sub_non_digits_def list_all_iff)

lemma sub_non_digits_plus:
  "sub_non_digits nd (ustr ''+'' @ s) = sub_non_digits nd s"
  by (simp add: sub_non_digits_def is_digit_plus)

lemma sub_non_digits_plus91:
  "sub_non_digits nd (ustr ''+91'' @ s) = ustr ''91'' @ sub_non_digits nd s"
  by (simp add: sub_non_digits_def is_digit_plus is_digit_nine_one)

text \<open>
  C4. Normalisation keeps exactly the digits of the input, in their order (the
  characters \<^verbatim>\<open>0\<close> to \<^verbatim>\<open>9\<close> and the decimal digits beyond ASCII), and drops every
  other character. Then it looks at that digit string: 12 digits starting with 91
  get a plus sign, exactly 10 digits get +91, more than 10 digits get a plus sign,
  and a shorter digit string is returned as it is. 9876543210 becomes +919876543210
  and 12345 stays 12345; brackets, spaces, dashes, letters and a leading plus sign
  are stripped.
\<close>

theorem format_phone_number_rule:
  "format_phone_number nd p =
     (let ds = filter (\<lambda>c. if c < 128 then 48 \<le> c \<and> c \<le> 57 else nd c) p in
      if take 2 ds = [57, 49] \<and> length ds = 12 then 43 # ds
      else if length ds = 10 then 43 # 57 # 49 # ds
      else if 10 < length ds then 43 # ds
      else ds)
   \<and> format_phone_number nd (ustr ''9876543210'') = ustr ''+919876543210''
   \<and> format_phone_number nd (ustr ''12345'') = ustr ''12345''
   \<and> format_phone_number nd (ustr ''(987) 654-3210'') = ustr ''+919876543210''
   \<and> format_phone_number nd (ustr ''+91 98765-43210'') = ustr ''+919876543210''
   \<and> format_phone_number nd (ustr ''tel: 0091 98765 43210 ext. 7'') = ustr ''+009198765432107''
   \<and> format_phone_number nd (ustr ''12-34 / five'') = ustr ''1234''
   \<and> format_phone_number nd (ustr ''no digits at all'') = []"
proof -
  have digits: "sub_non_digits nd p = filter (\<lambda>c. if c < 128 then 48 \<le> c \<and> c \<le> 57 else nd c) p"
    by (simp add: sub_non_digits_def is_digit_def [abs_def])
  have "format_phone_number nd p =
     (let ds = filter (\<lambda>c. if c < 128 then 48 \<le> c \<and> c \<le> 57 else nd c) p in
      if take 2 ds = [57, 49] \<and> length ds = 12 then 43 # ds
      else if length ds = 10 then 43 # 57 # 49 # ds
      else if 10 < length ds then 43 # ds
      else ds)"
    unfolding format_phone_number_def digits by (simp add: Let_def startswith_def)
  moreover have "format_phone_number nd (ustr ''9876543210'') = ustr ''+919876543210''"
    by (simp add: format_phone_number_def sub_non_digits_def is_digit_def startswith_def)
  moreover have "format_phone_number nd (ustr ''12345'') = ustr ''12345''"
    by (simp add: format_phone_number_def sub_non_digits_def is_digit_def startswith_def)
  moreover have "format_phone_number nd (ustr ''(987) 654-3210'') = ustr ''+919876543210''"
    by (simp add: format_phone_number_def sub_non_digits_def is_digit_def startswith_def)
  moreover have "format_phone_number nd (ustr ''+91 98765-43210'') = ustr ''+919876543210''"
    by (simp add: format_phone_number_def sub_non_digits_def is_digit_def startswith_def)
  moreover have "format_phone_number nd (ustr ''tel: 0091 98765 43210 ext. 7'')
      = ustr ''+009198765432107''"
    by (simp add: format_phone_number_def sub_non_digits_def is_digit_def startswith_def)
  moreover have "format_phone_number nd (ustr ''12-34 / five'') = ustr ''1234''"
    by (simp add: format_phone_number_def sub_non_digits_def is_digit_def startswith_def)
  moreover have "format_phone_number nd (ustr ''no digits at all'') = []"
    by (simp add: format_phone_number_def sub_non_digits_def is_digit_def startswith_def)
  ultimately show ?thesis
    by blast
qed

text \<open>
  C9. Normalising twice gives the same string as normalising once.
\<close>

theorem format_phone_number_idempotent:
  "format_phone_number nd (format_phone_number nd p) = format_phone_number nd p"
proof -
  define ds where "ds = sub_non_digits nd p"
  have idem: "sub_non_digits nd ds = ds"
    unfolding ds_def by (rule sub_non_digits_idem)
  consider (a) "startswith ds (ustr ''91'') \<and> length ds = 12"
    | (b) "\<not> (startswith ds (ustr ''91'') \<and> length ds = 12)" "length ds = 10"
    | (c) "\<not> (startswith ds (ustr ''91'') \<and> length ds = 12)" "length ds \<noteq> 10" "10 < length ds"
    | (d) "\<not> (startswith ds (ustr ''91'') \<and> length ds = 12)" "length ds \<noteq> 10" "\<not> 10 < length ds"
    by blast
  then show ?thesis
  proof cases
    case a
    then have first: "format_phone_number nd p = ustr ''+'' @ ds"
      by (simp add: format_phone_number_def ds_def [symmetric])
    have "sub_non_digits nd (ustr ''+'' @ ds) = ds"
      using sub_non_digits_plus [of nd ds] idem by simp
    then have "format_phone_number nd (ustr ''+'' @ ds) = ustr ''+'' @ ds"
      using a unfolding format_phone_number_def by (simp add: Let_def)
    with first show ?thesis by simp
  next
    case b
    then have first: "format_phone_number nd p = ustr ''+91'' @ ds"
      by (simp add: format_phone_number_def ds_def [symmetric])
    have strip: "sub_non_digits nd (ustr ''+91'' @ ds) = ustr ''91'' @ ds"
      using sub_non_digits_plus91 [of nd ds] idem by simp
    have "format_phone_number nd (ustr ''+91'' @ ds) = ustr ''+'' @ (ustr ''91'' @ ds)"
      unfolding format_phone_number_def strip using b(2)
      by (simp add: Let_def startswith_def)
    with first show ?thesis by simp
  next
    case c
    then have first: "format_phone_number nd p = ustr ''+'' @ ds"
      by (simp add: format_phone_number_def ds_def [symmetric])
    have "sub_non_digits nd (ustr ''+'' @ ds) = ds"
      using sub_non_digits_plus [of nd ds] idem by simp
    then have "format_phone_number nd (ustr ''+'' @ ds) = ustr ''+'' @ ds"
      using c unfolding format_phone_number_def by (simp add: Let_def)
    with first show ?thesis by simp
  next
    case d
    then have first: "format_phone_number nd p = ds"
      by (simp add: format_phone_number_def ds_def [symmetric])
    have "format_phone_number nd ds = ds"
      using d idem unfolding format_phone_number_def by (simp add: Let_def)
    with first show ?thesis by simp
  qed
qed

text \<open>
  C5. The stated rule accepts 10 digits, 12 digits starting with 91, and a
  13-character input starting with +91 (the format +91XXXXXXXXXX that the form asks
  for), and rejects everything else. The third branch of the code counts 13 digits
  instead of 13 characters. So the input +9112345678901, with 14 characters and 13
  digits, is accepted by the code and rejected by the rule; and +91abcdefghij, with
  13 characters starting with +91, is rejected by the code and accepted by the rule.
  A number in the format +91XXXXXXXXXX is accepted all the same, by the branch for 12
  digits; 9876543210 is valid and 12345 is not, as stated.
\<close>

theorem validate_phone_number_thirteen_digits:
  "validate_phone_number ascii_nd (ustr ''+9112345678901'')
   \<and> \<not> valid_phone_as_specified ascii_nd (ustr ''+9112345678901'')
   \<and> length (ustr ''+9112345678901'') = 14
   \<and> length (filter (\<lambda>c. 48 \<le> c \<and> c \<le> 57) (ustr ''+9112345678901'')) = 13
   \<and> \<not> validate_phone_number ascii_nd (ustr ''+91abcdefghij'')
   \<and> valid_phone_as_specified ascii_nd (ustr ''+91abcdefghij'')
   \<and> validate_phone_number ascii_nd (ustr ''+919876543210'')
   \<and> validate_phone_number ascii_nd (ustr ''9876543210'')
   \<and> \<not> validate_phone_number ascii_nd (ustr ''12345'')"
  by (simp add: validate_phone_number_def valid_phone_as_specified_def sub_non_digits_def
      is_digit_def startswith_def)

section \<open>Due dates\<close>

lemma calc_offset:
  "calculate_next_due_date (DateObj d) t = date_add d (tier_offset t)"
  by (simp add: calculate_next_due_date_def to_date_def tier_offset_def)

lemma calc_str:
  "calculate_next_due_date (DateStr (Some d)) t = calculate_next_due_date (DateObj d) t"
  by (simp add: calculate_next_due_date_def to_date_def)

lemma date_add_cases:
  "date_add d n = (if 0 < d + n \<and> d + n \<le> MAXORDINAL then Inr (d + n) else Inl OverflowError)"
  by (simp add: date_add_def Let_def)

lemma pending_loop_step:
  "pending_loop today (m # ms) acc =
     (if valid_date (due_date_of m)
      then pending_loop today ms (if pending_as_specified today m then acc @ [reminder_entry today m] else acc)
      else Inl OverflowError)"
  by (auto simp add: to_date_def fetched_payment_date_def calc_offset date_add_cases valid_date_def
      due_date_of_def days_remaining_of_def pending_as_specified_def reminder_entry_def Let_def)

lemma pending_loop_eq:
  "pending_loop today ms acc =
     (if list_all (\<lambda>m. valid_date (due_date_of m)) ms
      then Inr (acc @ map (reminder_entry today) (filter (pending_as_specified today) ms))
      else Inl OverflowError)"
proof (induction ms arbitrary: acc)
  case Nil
  then show ?case by simp
next
  case (Cons m ms)
  show ?case
    unfolding pending_loop_step by (simp add: Cons.IH)
qed


lemma ord_2024_01_01: "ymd2ord 2024 1 1 = 738886"
  by (simp add: ymd2ord_def days_before_year_def days_before_month_def is_leap_def)

lemma ord_2024_01_20: "ymd2ord 2024 1 20 = 738905"
  by (simp add: ymd2ord_def days_before_year_def days_before_month_def is_leap_def)

lemma ord_2024_01_31: "ymd2ord 2024 1 31 = 738916"
  by (simp add: ymd2ord_def days_before_year_def days_before_month_def is_leap_def)

lemma ord_9999_12_31: "ymd2ord 9999 12 31 = MAXORDINAL"
  by (simp add: ymd2ord_def days_before_year_def days_before_month_def is_leap_def MAXORDINAL_def)

text \<open>
  C1, as stated: the calculator is total, with no error condition. On the last day
  of the calendar, 9999-12-31, a Monthly member's due date is not a date and the
  addition raises \<^verbatim>\<open>OverflowError\<close>.
\<close>

theorem calculate_next_due_date_counterexample:
  "valid_date (ymd2ord 9999 12 31)
   \<and> calculate_next_due_date (DateObj (ymd2ord 9999 12 31)) (ustr ''Monthly Subscriber'')
       = Inl OverflowError"
  unfolding ord_9999_12_31
  by (simp add: valid_date_def calc_offset date_add_cases tier_offset_def MAXORDINAL_def)

text \<open>
  C1, amended: for every payment date d, given as a date or as a text that parses to
  d, and every tier string, the calculator returns d plus the offset of the tier (30
  days for Monthly, 90 for Quarterly, 180 for HalfYearly, 365 for Annual, 30 for any
  other string) whenever that day is not after 9999-12-31, and raises
  \<^verbatim>\<open>OverflowError\<close> otherwise. A text that does not parse raises
  \<^verbatim>\<open>ValueError\<close>.
\<close>

theorem calculate_next_due_date_offsets:
  assumes "valid_date d"
  shows "calculate_next_due_date (DateObj d) t =
           (if d + tier_offset t \<le> MAXORDINAL then Inr (d + tier_offset t) else Inl OverflowError)
         \<and> calculate_next_due_date (DateStr (Some d)) t = calculate_next_due_date (DateObj d) t
         \<and> calculate_next_due_date (DateStr None) t = Inl ValueError
         \<and> tier_offset (ustr ''Monthly Subscriber'') = 30
         \<and> tier_offset (ustr ''Quarterly'') = 90
         \<and> tier_offset (ustr ''Half Yearly'') = 180
         \<and> tier_offset (ustr ''Annual'') = 365
         \<and> (t \<notin> {ustr ''Monthly Subscriber'', ustr ''Quarterly'', ustr ''Half Yearly'', ustr ''Annual''}
              \<longrightarrow> tier_offset t = 30)"
proof -
  have pos: "0 < tier_offset t"
    by (simp add: tier_offset_def)
  have "calculate_next_due_date (DateObj d) t =
           (if d + tier_offset t \<le> MAXORDINAL then Inr (d + tier_offset t) else Inl OverflowError)"
    using assms pos by (simp add: calc_offset date_add_cases valid_date_def)
  moreover have "tier_offset (ustr ''Monthly Subscriber'') = 30" "tier_offset (ustr ''Quarterly'') = 90"
    "tier_offset (ustr ''Half Yearly'') = 180" "tier_offset (ustr ''Annual'') = 365"
    by (simp_all add: tier_offset_def)
  moreover have "t \<notin> {ustr ''Monthly Subscriber'', ustr ''Quarterly'', ustr ''Half Yearly'', ustr ''Annual''}
              \<longrightarrow> tier_offset t = 30"
    by (simp add: tier_offset_def)
  moreover have "calculate_next_due_date (DateStr None) t = Inl ValueError"
    by (simp add: calculate_next_due_date_def to_date_def)
  ultimately show ?thesis
    using calc_str by blast
qed

theorem calculate_next_due_date_offsets_witness:
  "valid_date (ymd2ord 2024 1 1)
   \<and> calculate_next_due_date (DateObj (ymd2ord 2024 1 1)) (ustr ''Quarterly'') = Inr (ymd2ord 2024 1 1 + 90)
   \<and> calculate_next_due_date (DateObj (ymd2ord 2024 1 1)) (ustr ''Weekly'') = Inr (ymd2ord 2024 1 31)"
proof -
  have v: "valid_date (ymd2ord 2024 1 1)"
    unfolding ord_2024_01_01 by (simp add: valid_date_def MAXORDINAL_def)
  show ?thesis
    using v calculate_next_due_date_offsets [OF v, of "ustr ''Quarterly''"]
      calculate_next_due_date_offsets [OF v, of "ustr ''Weekly''"]
    unfolding ord_2024_01_01 ord_2024_01_31 by (simp add: MAXORDINAL_def)
qed


section \<open>Pending reminders\<close>

lemma calc_cases:
  "calculate_next_due_date (DateObj d) t =
     (if 0 < d + tier_offset t \<and> d + tier_offset t \<le> MAXORDINAL then Inr (d + tier_offset t)
      else Inl OverflowError)"
  by (simp add: calc_offset date_add_cases)

lemma calc_valid:
  "\<not> isl (calculate_next_due_date (DateObj (m_payment_date m)) (m_membership_type m))
     \<longleftrightarrow> valid_date (due_date_of m)"
  by (simp add: calc_cases valid_date_def due_date_of_def)

lemma calc_due:
  "valid_date (due_date_of m) \<Longrightarrow>
     projr (calculate_next_due_date (DateObj (m_payment_date m)) (m_membership_type m))
       = due_date_of m"
  by (simp add: calc_cases valid_date_def due_date_of_def)

text \<open>
  C2, as stated: for every member list the classifier returns the pending set. A
  member whose due date would lie after 9999-12-31 makes the whole call raise
  \<^verbatim>\<open>OverflowError\<close>: with such a member in the table no list is returned, and
  a member who is due in 11 days, within 30 lead days, is not listed.
\<close>

theorem get_pending_reminders_counterexample:
  "get_pending_reminders
     \<lparr>members =
        [\<lparr>m_id = 1, m_name = ustr ''Amy'', m_phone = ustr ''+919000000003'', m_email = [],
          m_membership_type = ustr ''Monthly Subscriber'', m_amount = (500::int),
          m_payment_date = 738886, m_reminder_days = 30\<rparr>,
         \<lparr>m_id = 2, m_name = ustr ''Zed'', m_phone = ustr ''+919000000001'', m_email = [],
          m_membership_type = ustr ''Monthly Subscriber'', m_amount = 500,
          m_payment_date = 3652059, m_reminder_days = 30\<rparr>],
      payment_history = [], reminder_logs = [], member_checkins = []\<rparr> 738905
   = Inl OverflowError
   \<and> calculate_next_due_date (DateObj 738886) (ustr ''Monthly Subscriber'') = Inr 738916
   \<and> (0::int) \<le> 738916 - 738905 \<and> (738916::int) - 738905 \<le> 30
   \<and> valid_date 3652059"
  by (simp add: get_pending_reminders_def select_members_order_by_name_def to_date_def
      fetched_payment_date_def calculate_next_due_date_def date_add_def MAXORDINAL_def
      valid_date_def)

text \<open>
  C2, amended: for every member list and reference date, the classifier returns a
  list exactly when the calculator gives every member a due date; otherwise it
  raises \<^verbatim>\<open>OverflowError\<close>. The calculator gives the due date exactly when the
  payment date plus the offset of the tier is a day of the calendar. The list holds
  the entries of exactly the members whose \<open>days_remaining\<close>, the calculator's due
  date minus today, is negative (an overdue reminder, of severity
  \<open>|days_remaining|\<close>) or between 0 and the member's \<open>reminder_days\<close> (a payment
  reminder); every other member is left out, and the list is in the order of the
  members' names.
\<close>

theorem get_pending_reminders_classification:
  "(let due = (\<lambda>m. calculate_next_due_date (DateObj (m_payment_date m)) (m_membership_type m));
        days = (\<lambda>m. projr (due m) - today);
        pending = (\<lambda>m. days m < 0 \<or> (0 \<le> days m \<and> days m \<le> m_reminder_days m));
        entry = (\<lambda>m. \<lparr>r_member_id = m_id m, r_member_name = m_name m, r_phone = m_phone m,
                       r_email = m_email m, r_membership_type = m_membership_type m,
                       r_amount = m_amount m, r_payment_date = m_payment_date m,
                       r_next_due_date = projr (due m), r_days_remaining = days m,
                       r_reminder_type =
                         (if days m < 0 then ustr ''overdue_reminder''
                          else ustr ''payment_reminder''),
                       r_reminder_days = m_reminder_days m\<rparr>);
        listed = map entry (filter pending (sort_key m_name (members db)))
    in get_pending_reminders db today =
         (if list_all (\<lambda>m. \<not> isl (due m)) (members db) then Inr listed
          else Inl OverflowError)
       \<and> sorted (map r_member_name listed)
       \<and> (\<forall>m \<in> set (members db). entry m \<in> set listed \<longleftrightarrow> pending m)
       \<and> (\<forall>r \<in> set listed.
             (r_days_remaining r < 0 \<longrightarrow>
                r_reminder_type r = ustr ''overdue_reminder''
                \<and> \<bar>r_days_remaining r\<bar> = today - r_next_due_date r)
             \<and> (0 \<le> r_days_remaining r \<longrightarrow>
                r_reminder_type r = ustr ''payment_reminder''
                \<and> r_days_remaining r \<le> r_reminder_days r))
       \<and> (\<forall>m. due m =
             (if 0 < m_payment_date m + tier_offset (m_membership_type m)
                 \<and> m_payment_date m + tier_offset (m_membership_type m) \<le> 3652059
              then Inr (m_payment_date m + tier_offset (m_membership_type m))
              else Inl OverflowError)))"
proof -
  define due where "due = (\<lambda>m :: 'a member.
    calculate_next_due_date (DateObj (m_payment_date m)) (m_membership_type m))"
  define days where "days = (\<lambda>m. projr (due m) - today)"
  define pending where
    "pending = (\<lambda>m. days m < 0 \<or> (0 \<le> days m \<and> days m \<le> m_reminder_days m))"
  define entry where "entry = (\<lambda>m. \<lparr>r_member_id = m_id m, r_member_name = m_name m,
      r_phone = m_phone m, r_email = m_email m, r_membership_type = m_membership_type m,
      r_amount = m_amount m, r_payment_date = m_payment_date m,
      r_next_due_date = projr (due m), r_days_remaining = days m,
      r_reminder_type =
        (if days m < 0 then ustr ''overdue_reminder'' else ustr ''payment_reminder''),
      r_reminder_days = m_reminder_days m\<rparr>)"
  define listed where "listed = map entry (filter pending (sort_key m_name (members db)))"
  let ?ms = "sort_key m_name (members db)"
  have ok_iff: "\<not> isl (due m) \<longleftrightarrow> valid_date (due_date_of m)" for m
    unfolding due_def by (rule calc_valid)
  have days_eq: "days m = days_remaining_of today m" if "valid_date (due_date_of m)" for m
    using calc_due [OF that] by (simp add: days_def due_def days_remaining_of_def)
  have pending_eq: "pending m = pending_as_specified today m" if "valid_date (due_date_of m)" for m
    using days_eq [OF that] by (simp add: pending_def pending_as_specified_def)
  have entry_eq: "entry m = reminder_entry today m" if "valid_date (due_date_of m)" for m
    using days_eq [OF that] calc_due [OF that]
    by (simp add: entry_def reminder_entry_def due_def)
  have run: "get_pending_reminders db today =
         (if list_all (\<lambda>m. \<not> isl (due m)) (members db) then Inr listed
          else Inl OverflowError)"
  proof (cases "list_all (\<lambda>m. valid_date (due_date_of m)) (members db)")
    case True
    then have valid: "valid_date (due_date_of m)" if "m \<in> set ?ms" for m
      using that by (simp add: list_all_iff)
    have "filter (pending_as_specified today) ?ms = filter pending ?ms"
      by (rule filter_cong [OF refl]) (simp add: pending_eq valid)
    moreover have "map (reminder_entry today) (filter pending ?ms) = map entry (filter pending ?ms)"
      by (rule map_cong [OF refl]) (simp add: entry_eq valid)
    ultimately have "map (reminder_entry today) (filter (pending_as_specified today) ?ms) = listed"
      by (simp add: listed_def)
    moreover have "list_all (\<lambda>m. valid_date (due_date_of m)) ?ms"
      using True by (simp add: list_all_iff)
    ultimately show ?thesis
      using True
      by (simp add: get_pending_reminders_def select_members_order_by_name_def pending_loop_eq
          ok_iff)
  next
    case False
    then have "\<not> list_all (\<lambda>m. valid_date (due_date_of m)) ?ms"
      by (simp add: list_all_iff)
    then show ?thesis
      using False
      by (simp add: get_pending_reminders_def select_members_order_by_name_def pending_loop_eq
          ok_iff)
  qed
  have name: "r_member_name \<circ> entry = m_name"
    by (simp add: fun_eq_iff entry_def)
  have "sorted (map m_name (filter pending ?ms))"
    by (rule sorted_filter) (rule sorted_sort_key)
  then have srt: "sorted (map r_member_name listed)"
    by (simp only: listed_def map_map name)
  have inj: "entry m = entry m' \<Longrightarrow> pending m = pending m'" for m m'
  proof -
    assume "entry m = entry m'"
    then have "r_days_remaining (entry m) = r_days_remaining (entry m')"
      and "r_reminder_days (entry m) = r_reminder_days (entry m')"
      by simp_all
    then show ?thesis
      by (simp add: entry_def pending_def)
  qed
  have mem: "entry m \<in> set listed \<longleftrightarrow> pending m" if "m \<in> set (members db)" for m
  proof
    assume "entry m \<in> set listed"
    then obtain m' where "pending m'" and "entry m = entry m'"
      unfolding listed_def by auto
    then show "pending m"
      using inj [of m m'] by simp
  next
    assume "pending m"
    then have "m \<in> set (filter pending ?ms)"
      using that by simp
    then show "entry m \<in> set listed"
      unfolding listed_def by (simp only: set_map) (rule imageI)
  qed
  have ent: "(r_days_remaining r < 0 \<longrightarrow>
                r_reminder_type r = ustr ''overdue_reminder''
                \<and> \<bar>r_days_remaining r\<bar> = today - r_next_due_date r)
             \<and> (0 \<le> r_days_remaining r \<longrightarrow>
                r_reminder_type r = ustr ''payment_reminder''
                \<and> r_days_remaining r \<le> r_reminder_days r)" if "r \<in> set listed" for r
  proof -
    from that obtain m where m: "r = entry m" "pending m"
      unfolding listed_def by auto
    show ?thesis
      using m(2) unfolding m(1) by (auto simp add: entry_def pending_def days_def)
  qed
  have calc: "due m =
             (if 0 < m_payment_date m + tier_offset (m_membership_type m)
                 \<and> m_payment_date m + tier_offset (m_membership_type m) \<le> 3652059
              then Inr (m_payment_date m + tier_offset (m_membership_type m))
              else Inl OverflowError)" for m
    by (simp add: due_def calc_cases MAXORDINAL_def)
  have "get_pending_reminders db today =
         (if list_all (\<lambda>m. \<not> isl (due m)) (members db) then Inr listed
          else Inl OverflowError)
       \<and> sorted (map r_member_name listed)
       \<and> (\<forall>m \<in> set (members db). entry m \<in> set listed \<longleftrightarrow> pending m)
       \<and> (\<forall>r \<in> set listed.
             (r_days_remaining r < 0 \<longrightarrow>
                r_reminder_type r = ustr ''overdue_reminder''
                \<and> \<bar>r_days_remaining r\<bar> = today - r_next_due_date r)
             \<and> (0 \<le> r_days_remaining r \<longrightarrow>
                r_reminder_type r = ustr ''payment_reminder''
                \<and> r_days_remaining r \<le> r_reminder_days r))
       \<and> (\<forall>m. due m =
             (if 0 < m_payment_date m + tier_offset (m_membership_type m)
                 \<and> m_payment_date m + tier_offset (m_membership_type m) \<le> 3652059
              then Inr (m_payment_date m + tier_offset (m_membership_type m))
              else Inl OverflowError))"
    using run srt mem ent calc by blast
  then show ?thesis
    unfolding Let_def due_def days_def pending_def entry_def listed_def .
qed

theorem get_pending_reminders_classification_witness:
  "get_pending_reminders
     \<lparr>members =
        [\<lparr>m_id = 1, m_name = ustr ''Zed'', m_phone = ustr ''+919000000001'', m_email = [],
          m_membership_type = ustr ''Monthly Subscriber'', m_amount = (500::int),
          m_payment_date = 738800, m_reminder_days = 30\<rparr>,
         \<lparr>m_id = 2, m_name = ustr ''Bob'', m_phone = ustr ''+919000000002'', m_email = [],
          m_membership_type = ustr ''Annual'', m_amount = 6000,
          m_payment_date = 738886, m_reminder_days = 30\<rparr>,
         \<lparr>m_id = 3, m_name = ustr ''Amy'', m_phone = ustr ''+919000000003'', m_email = [],
          m_membership_type = ustr ''Monthly Subscriber'', m_amount = 500,
          m_payment_date = 738886, m_reminder_days = 15\<rparr>],
      payment_history = [], reminder_logs = [], member_checkins = []\<rparr> 738905
   = Inr [\<lparr>r_member_id = 3, r_member_name = ustr ''Amy'', r_phone = ustr ''+919000000003'',
           r_email = [], r_membership_type = ustr ''Monthly Subscriber'', r_amount = 500,
           r_payment_date = 738886, r_next_due_date = 738916, r_days_remaining = 11,
           r_reminder_type = ustr ''payment_reminder'', r_reminder_days = 15\<rparr>,
          \<lparr>r_member_id = 1, r_member_name = ustr ''Zed'', r_phone = ustr ''+919000000001'',
           r_email = [], r_membership_type = ustr ''Monthly Subscriber'', r_amount = 500,
           r_payment_date = 738800, r_next_due_date = 738830, r_days_remaining = - 75,
           r_reminder_type = ustr ''overdue_reminder'', r_reminder_days = 30\<rparr>]"
  (is "get_pending_reminders ?db ?today = Inr ?rs")
proof -
  have run: "get_pending_reminders ?db ?today =
      (let due = (\<lambda>m. calculate_next_due_date (DateObj (m_payment_date m)) (m_membership_type m));
           days = (\<lambda>m. projr (due m) - ?today);
           pending = (\<lambda>m. days m < 0 \<or> (0 \<le> days m \<and> days m \<le> m_reminder_days m));
           entry = (\<lambda>m. \<lparr>r_member_id = m_id m, r_member_name = m_name m, r_phone = m_phone m,
                       r_email = m_email m, r_membership_type = m_membership_type m,
                       r_amount = m_amount m, r_payment_date = m_payment_date m,
                       r_next_due_date = projr (due m), r_days_remaining = days m,
                       r_reminder_type =
                         (if days m < 0 then ustr ''overdue_reminder''
                          else ustr ''payment_reminder''),
                       r_reminder_days = m_reminder_days m\<rparr>);
           listed = map entry (filter pending (sort_key m_name (members ?db)))
       in if list_all (\<lambda>m. \<not> isl (due m)) (members ?db) then Inr listed
          else Inl OverflowError)"
    using get_pending_reminders_classification [where db = "?db" and today = "?today"]
    by (simp only: Let_def)
  show ?thesis
    unfolding run
    by (simp add: Let_def calculate_next_due_date_def to_date_def date_add_def MAXORDINAL_def)
qed

text \<open>
  C3, as stated: with payment date 2024-01-01, tier Monthly, 30 lead days and today
  2024-01-20, \<open>days_remaining\<close> is 10. The due date is 2024-01-31, eleven days
  after 2024-01-20, and the code computes 11.
\<close>

theorem days_remaining_example_counterexample:
  "(case get_pending_reminders
      \<lparr>members =
         [\<lparr>m_id = 1, m_name = ustr ''Asha'', m_phone = ustr ''+919876543210'', m_email = [],
           m_membership_type = ustr ''Monthly Subscriber'', m_amount = (500::int),
           m_payment_date = ymd2ord 2024 1 1, m_reminder_days = 30\<rparr>],
       payment_history = [], reminder_logs = [], member_checkins = []\<rparr>
      (ymd2ord 2024 1 20) of
      Inl e \<Rightarrow> []
    | Inr rs \<Rightarrow> map r_days_remaining rs) = [11]
   \<and> [11] \<noteq> [10::int]"
  unfolding ord_2024_01_01 ord_2024_01_20
  by (simp add: get_pending_reminders_def select_members_order_by_name_def to_date_def
      fetched_payment_date_def calculate_next_due_date_def date_add_def MAXORDINAL_def)

text \<open>
  C3, amended: for such a member the classifier computes the due date 2024-01-31
  and \<open>days_remaining = 11\<close>, and lists the member as due soon (a payment
  reminder).
\<close>

theorem days_remaining_example:
  "get_pending_reminders
      \<lparr>members = [m\<lparr>m_payment_date := ymd2ord 2024 1 1,
                     m_membership_type := ustr ''Monthly Subscriber'',
                     m_reminder_days := 30\<rparr>],
       payment_history = ps, reminder_logs = ls, member_checkins = cs\<rparr>
      (ymd2ord 2024 1 20)
   = Inr [\<lparr>r_member_id = m_id m, r_member_name = m_name m, r_phone = m_phone m,
           r_email = m_email m, r_membership_type = ustr ''Monthly Subscriber'',
           r_amount = m_amount m, r_payment_date = ymd2ord 2024 1 1,
           r_next_due_date = ymd2ord 2024 1 31, r_days_remaining = 11,
           r_reminder_type = ustr ''payment_reminder'', r_reminder_days = 30\<rparr>]"
  unfolding ord_2024_01_01 ord_2024_01_20 ord_2024_01_31
  by (simp add: get_pending_reminders_def select_members_order_by_name_def to_date_def
      fetched_payment_date_def calculate_next_due_date_def date_add_def MAXORDINAL_def)

section \<open>Deleting a member\<close>

text \<open>
  C8. After a successful delete of a member id, the queries for the payment-history
  rows, the reminder-log rows and the member row of that id return nothing; the rows
  of other members are kept.
\<close>

theorem delete_member_cascade:
  assumes "delete_member outcome db member_id = (True, db')"
  shows "filter (\<lambda>r. ph_member_id r = member_id) (payment_history db') = []
         \<and> filter (\<lambda>r. rl_member_id r = member_id) (reminder_logs db') = []
         \<and> filter (\<lambda>r. m_id r = member_id) (members db') = []
         \<and> payment_history db' = filter (\<lambda>r. ph_member_id r \<noteq> member_id) (payment_history db)
         \<and> reminder_logs db' = filter (\<lambda>r. rl_member_id r \<noteq> member_id) (reminder_logs db)
         \<and> members db' = filter (\<lambda>r. m_id r \<noteq> member_id) (members db)"
proof -
  from assms have ok: "outcome = SqliteOk"
    by (cases outcome) (simp_all add: delete_member_def)
  from assms have db': "db' = db\<lparr>payment_history := filter (\<lambda>r. ph_member_id r \<noteq> member_id) (payment_history db),
      reminder_logs := filter (\<lambda>r. rl_member_id r \<noteq> member_id) (reminder_logs db),
      member_checkins := filter (\<lambda>r. ci_member_id r \<noteq> member_id) (member_checkins db),
      members := filter (\<lambda>r. m_id r \<noteq> member_id) (members db)\<rparr>"
    unfolding ok by (simp add: delete_member_def Let_def)
  show ?thesis
    unfolding db' by (simp add: filter_empty_conv)
qed

theorem delete_member_cascade_witness:
  "delete_member SqliteOk
     \<lparr>members =
        [\<lparr>m_id = 1, m_name = ustr ''Zed'', m_phone = ustr ''+919000000001'', m_email = [],
          m_membership_type = ustr ''Monthly Subscriber'', m_amount = (500::int),
          m_payment_date = 738800, m_reminder_days = 30\<rparr>,
         \<lparr>m_id = 2, m_name = ustr ''Bob'', m_phone = ustr ''+919000000002'', m_email = [],
          m_membership_type = ustr ''Annual'', m_amount = 6000,
          m_payment_date = 738886, m_reminder_days = 30\<rparr>],
      payment_history =
        [\<lparr>ph_id = 1, ph_member_id = 1, ph_amount = 500, ph_payment_date = 738800,
          ph_payment_method = ustr ''Initial Payment''\<rparr>,
         \<lparr>ph_id = 2, ph_member_id = 2, ph_amount = 6000, ph_payment_date = 738886,
          ph_payment_method = ustr ''Initial Payment''\<rparr>,
         \<lparr>ph_id = 3, ph_member_id = 1, ph_amount = 500, ph_payment_date = 738830,
          ph_payment_method = ustr ''UPI''\<rparr>],
      reminder_logs =
        [\<lparr>rl_id = 1, rl_member_id = 1, rl_reminder_type = ustr ''overdue_reminder'',
          rl_message = ustr ''Dear Zed''\<rparr>],
      member_checkins = [\<lparr>ci_id = 1, ci_member_id = 1, ci_member_name = ustr ''Zed''\<rparr>]\<rparr> 1
   = (True,
      \<lparr>members =
        [\<lparr>m_id = 2, m_name = ustr ''Bob'', m_phone = ustr ''+919000000002'', m_email = [],
          m_membership_type = ustr ''Annual'', m_amount = 6000,
          m_payment_date = 738886, m_reminder_days = 30\<rparr>],
      payment_history =
        [\<lparr>ph_id = 2, ph_member_id = 2, ph_amount = 6000, ph_payment_date = 738886,
          ph_payment_method = ustr ''Initial Payment''\<rparr>],
      reminder_logs = [], member_checkins = []\<rparr>)
   \<and> filter (\<lambda>r. ph_member_id r = 1)
        [\<lparr>ph_id = 2, ph_member_id = 2, ph_amount = (6000::int), ph_payment_date = 738886,
          ph_payment_method = ustr ''Initial Payment''\<rparr>] = []"
  (is "?run = (True, ?db') \<and> _")
proof -
  have run: "?run = (True, ?db')"
    by (simp add: delete_member_def)
  from delete_member_cascade [OF run]
  have "filter (\<lambda>r. ph_member_id r = 1) (payment_history ?db') = []" by blast
  with run show ?thesis by simp
qed

section \<open>Active subscriptions\<close>

lemma active_where_cases:
  "active_where today m \<longleftrightarrow>
     today \<le> m_payment_date m + 30 \<and> m_payment_date m + 30 \<le> 3652059"
  by (auto simp add: active_where_def sqlite_date_plus_days_def MAXORDINAL_def)

lemma active_where_tier: "active_where today (m\<lparr>m_membership_type := t\<rparr>) = active_where today m"
  by (simp add: active_where_def)

text \<open>
  C10, as stated: a member counts as active if and only if the payment date plus 30
  days is on or after today. For a payment on 9999-12-15 the day 30 days later lies
  after 9999-12-31, SQLite's \<^verbatim>\<open>date\<close> gives NULL, and the member is not counted,
  although the payment date plus 30 days is after today.
\<close>

theorem get_active_subscriptions_counterexample:
  "get_active_subscriptions
     \<lparr>members =
        [\<lparr>m_id = 1, m_name = ustr ''Zed'', m_phone = ustr ''+919000000001'', m_email = [],
          m_membership_type = ustr ''Monthly Subscriber'', m_amount = (500::int),
          m_payment_date = ymd2ord 9999 12 15, m_reminder_days = 30\<rparr>],
      payment_history = [], reminder_logs = [], member_checkins = []\<rparr> (ymd2ord 2024 1 20) = 0
   \<and> ymd2ord 2024 1 20 \<le> ymd2ord 9999 12 15 + 30
   \<and> valid_date (ymd2ord 9999 12 15) \<and> valid_date (ymd2ord 2024 1 20)"
proof -
  have a: "ymd2ord 9999 12 15 = 3652043"
    by (simp add: ymd2ord_def days_before_year_def days_before_month_def is_leap_def)
  show ?thesis
    unfolding a ord_2024_01_20
    by (simp add: get_active_subscriptions_def active_where_def sqlite_date_plus_days_def
        MAXORDINAL_def valid_date_def)
qed

text \<open>
  C10, amended: the count of active subscriptions is the number of members whose
  payment date plus 30 days is on or after today and not after 9999-12-31, the last
  day SQLite represents. The tier plays no part: setting every tier to any string
  leaves the count unchanged. So a Quarterly, HalfYearly or Annual member whose
  payment lies more than 30 days back is not counted, although the calculator puts
  the due date at least 60 days after the end of that window.
\<close>

theorem get_active_subscriptions_fixed_window:
  "get_active_subscriptions db today
     = int (length (filter (\<lambda>m. today \<le> m_payment_date m + 30
                                \<and> m_payment_date m + 30 \<le> 3652059) (members db)))
   \<and> get_active_subscriptions
        (db\<lparr>members := map (\<lambda>m. m\<lparr>m_membership_type := t\<rparr>) (members db)\<rparr>) today
     = get_active_subscriptions db today
   \<and> (\<forall>m \<in> set (members db).
        m_membership_type m \<in> {ustr ''Quarterly'', ustr ''Half Yearly'', ustr ''Annual''}
        \<and> 0 < m_payment_date m \<and> m_payment_date m + 30 < today
        \<and> today \<le> m_payment_date m + 90 \<and> m_payment_date m + 365 \<le> 3652059
        \<longrightarrow> \<not> (today \<le> m_payment_date m + 30 \<and> m_payment_date m + 30 \<le> 3652059)
            \<and> (\<exists>due. calculate_next_due_date (DateObj (m_payment_date m)) (m_membership_type m)
                        = Inr due
                  \<and> today \<le> due \<and> m_payment_date m + 90 \<le> due))"
proof -
  have "filter (active_where today) (members db)
        = filter (\<lambda>m. today \<le> m_payment_date m + 30 \<and> m_payment_date m + 30 \<le> 3652059)
            (members db)"
    by (rule filter_cong [OF refl]) (simp add: active_where_cases)
  then have count: "get_active_subscriptions db today
     = int (length (filter (\<lambda>m. today \<le> m_payment_date m + 30
                                \<and> m_payment_date m + 30 \<le> 3652059) (members db)))"
    by (simp add: get_active_subscriptions_def)
  have tier: "get_active_subscriptions
        (db\<lparr>members := map (\<lambda>m. m\<lparr>m_membership_type := t\<rparr>) (members db)\<rparr>) today
     = get_active_subscriptions db today"
    by (simp add: get_active_subscriptions_def filter_map comp_def active_where_tier)
  have late: "\<not> (today \<le> m_payment_date m + 30 \<and> m_payment_date m + 30 \<le> 3652059)
            \<and> (\<exists>due. calculate_next_due_date (DateObj (m_payment_date m)) (m_membership_type m)
                        = Inr due
                  \<and> today \<le> due \<and> m_payment_date m + 90 \<le> due)"
    if "m_membership_type m \<in> {ustr ''Quarterly'', ustr ''Half Yearly'', ustr ''Annual''}"
      and "0 < m_payment_date m" and "m_payment_date m + 30 < today"
      and "today \<le> m_payment_date m + 90" and "m_payment_date m + 365 \<le> 3652059" for m
  proof -
    have off: "90 \<le> tier_offset (m_membership_type m)" "tier_offset (m_membership_type m) \<le> 365"
      using that(1) by (auto simp add: tier_offset_def)
    have "calculate_next_due_date (DateObj (m_payment_date m)) (m_membership_type m)
            = Inr (m_payment_date m + tier_offset (m_membership_type m))"
      using that(2,5) off by (simp add: calc_offset date_add_cases MAXORDINAL_def)
    then show ?thesis
      using that(3,4) off by simp
  qed
  show ?thesis
    using count tier late by blast
qed

theorem get_active_subscriptions_fixed_window_witness:
  "get_active_subscriptions
        \<lparr>members = [\<lparr>m_id = 1, m_name = ustr ''Bob'', m_phone = ustr ''+919000000002'', m_email = [],
          m_membership_type = ustr ''Quarterly'', m_amount = (1500::int),
          m_payment_date = 738886, m_reminder_days = 30\<rparr>],
         payment_history = [], reminder_logs = [], member_checkins = []\<rparr> 738926 = 0
   \<and> calculate_next_due_date (DateObj 738886) (ustr ''Quarterly'') = Inr 738976
   \<and> (738926::int) \<le> 738976"
  (is "get_active_subscriptions ?db 738926 = 0 \<and> _")
proof -
  from get_active_subscriptions_fixed_window [of ?db 738926]
  have "get_active_subscriptions ?db 738926
          = int (length (filter (\<lambda>m. 738926 \<le> m_payment_date m + 30
                                      \<and> m_payment_date m + 30 \<le> 3652059) (members ?db)))"
    by (rule conjunct1)
  then have "get_active_subscriptions ?db 738926 = 0" by simp
  moreover have "calculate_next_due_date (DateObj 738886) (ustr ''Quarterly'') = Inr 738976"
    by (simp add: calc_offset date_add_cases tier_offset_def MAXORDINAL_def)
  ultimately show ?thesis by simp
qed

section \<open>The link generator\<close>

lemma formatted_phone_filter:
  "replace_char 45 (replace_char 32 (replace_char 43 phone)) = filter (\<lambda>c. c \<notin> {43, 32, 45}) phone"
  by (induction phone) (simp_all add: replace_char_def)

lemma utf8_char_bytes: "utf8_char c = Some bs \<Longrightarrow> list_all (\<lambda>b. b < 256) bs"
  by (auto simp add: utf8_char_def split: if_splits)

lemma utf8_encode_bytes: "utf8_encode s = Inr bs \<Longrightarrow> list_all (\<lambda>b. b < 256) bs"
proof (induction s arbitrary: bs)
  case Nil
  then show ?case by simp
next
  case (Cons c cs)
  then show ?case
    by (auto split: option.splits sum.splits dest: utf8_char_bytes)
qed

lemma utf8_encode_fails:
  "utf8_encode s = Inl UnicodeEncodeError
     \<longleftrightarrow> \<not> list_all (\<lambda>c. c \<le> 1114111 \<and> \<not> (55296 \<le> c \<and> c \<le> 57343)) s"
proof (induction s)
  case Nil
  then show ?case by simp
next
  case (Cons c cs)
  have "utf8_char c = None \<longleftrightarrow> \<not> (c \<le> 1114111 \<and> \<not> (55296 \<le> c \<and> c \<le> 57343))"
    by (auto simp add: utf8_char_def)
  with Cons show ?case
    by (auto split: option.splits sum.splits)
qed

lemma utf8_encode_error: "utf8_encode s = Inl e \<Longrightarrow> e = UnicodeEncodeError"
  by (induction s arbitrary: e) (auto split: option.splits sum.splits)

lemma hex_digit_safe: "n < 16 \<Longrightarrow> always_safe (hex_digit n)"
  by (simp add: hex_digit_def always_safe_def)

lemma quote_byte_chars:
  assumes "b < 256"
  shows "list_all (\<lambda>c. always_safe c \<or> c = 47 \<or> c = 37) (quote_byte b)"
proof -
  have "b div 16 < 16" using assms by simp
  then show ?thesis
    by (simp add: quote_byte_def hex_digit_safe)
qed

lemma quote_chars:
  assumes "quote message = Inr q"
  shows "list_all (\<lambda>c. always_safe c \<or> c = 47 \<or> c = 37) q"
proof -
  from assms obtain bs where bs: "utf8_encode message = Inr bs" and q: "q = concat (map quote_byte bs)"
    by (auto simp add: quote_def split: sum.splits)
  have "list_all (\<lambda>b. b < 256) bs"
    using bs by (rule utf8_encode_bytes)
  then show ?thesis
    unfolding q by (induction bs) (simp_all add: quote_byte_chars)
qed

lemma digits_only_phone:
  assumes "list_all (\<lambda>c. is_digit nd c \<or> c \<in> {43, 32, 45}) phone"
  shows "filter (\<lambda>c. c \<notin> {43, 32, 45}) phone = sub_non_digits nd phone"
  unfolding sub_non_digits_def
proof (rule filter_cong [OF refl])
  fix c assume "c \<in> set phone"
  with assms have "is_digit nd c \<or> c \<in> {43, 32, 45}"
    by (simp add: list_all_iff)
  moreover have "\<not> is_digit nd 43" "\<not> is_digit nd 32" "\<not> is_digit nd 45"
    by (simp_all add: is_digit_def)
  ultimately show "(c \<notin> {43, 32, 45}) = is_digit nd c"
    by auto
qed

text \<open>
  C6, as stated: the digits part of the link is the phone number with every
  non-digit character stripped. The code removes the plus sign, the space and the
  dash only: the parentheses of (987) 654-3210 stay in the link.
\<close>

theorem send_whatsapp_url_counterexample:
  "send_whatsapp_url (ustr ''(987) 654-3210'') (ustr ''Hi'')
     = Inr (ustr ''https://wa.me/(987)6543210?text=Hi'')
   \<and> whatsapp_url_as_specified ascii_nd (ustr ''(987) 654-3210'') (ustr ''Hi'')
     = Inr (ustr ''https://wa.me/9876543210?text=Hi'')
   \<and> ustr ''https://wa.me/(987)6543210?text=Hi'' \<noteq> ustr ''https://wa.me/9876543210?text=Hi''"
  by (simp add: send_whatsapp_url_def whatsapp_url_as_specified_def replace_char_def quote_def
      utf8_char_def quote_byte_def always_safe_def sub_non_digits_def is_digit_def)

text \<open>
  C6, amended: for every phone number and message, the link is
  \<^verbatim>\<open>https://wa.me/\<close>, the phone number with every plus sign, space and dash
  removed, \<^verbatim>\<open>?text=\<close> and the percent-encoded message. The phone part consists of
  digits only when the phone number is made of digits and these three characters,
  as every number normalised by \<open>format_phone_number\<close> is. The encoded message
  consists of letters, digits, \<^verbatim>\<open>_.-~/\<close> and \<^verbatim>\<open>%XX\<close> escapes; encoding fails,
  and with it the call, exactly when the message holds a surrogate code point.
\<close>

theorem send_whatsapp_url_form:
  "send_whatsapp_url phone message =
     (case quote message of
        Inl e \<Rightarrow> Inl UnicodeEncodeError
      | Inr q \<Rightarrow> Inr (ustr ''https://wa.me/'' @ filter (\<lambda>c. c \<notin> {43, 32, 45}) phone
                     @ ustr ''?text='' @ q))
   \<and> (list_all (\<lambda>c. is_digit nd c \<or> c \<in> {43, 32, 45}) phone \<longrightarrow>
        filter (\<lambda>c. c \<notin> {43, 32, 45}) phone = sub_non_digits nd phone)
   \<and> filter (\<lambda>c. c \<notin> {43, 32, 45}) (format_phone_number nd phone)
       = sub_non_digits nd (format_phone_number nd phone)
   \<and> ((\<exists>e. quote message = Inl e) \<longleftrightarrow>
        \<not> list_all (\<lambda>c. c \<le> 1114111 \<and> \<not> (55296 \<le> c \<and> c \<le> 57343)) message)
   \<and> (\<forall>q. quote message = Inr q \<longrightarrow> list_all (\<lambda>c. always_safe c \<or> c = 47 \<or> c = 37) q)"
proof -
  have form: "send_whatsapp_url phone message =
     (case quote message of
        Inl e \<Rightarrow> Inl UnicodeEncodeError
      | Inr q \<Rightarrow> Inr (ustr ''https://wa.me/'' @ filter (\<lambda>c. c \<notin> {43, 32, 45}) phone
                     @ ustr ''?text='' @ q))"
    unfolding send_whatsapp_url_def formatted_phone_filter Let_def
    by (auto simp add: quote_def split: sum.splits dest: utf8_encode_error)
  have "list_all (\<lambda>c. is_digit nd c \<or> c \<in> {43, 32, 45}) (format_phone_number nd phone)"
    using sub_non_digits_all [of nd phone]
    by (simp add: format_phone_number_def Let_def list_all_iff is_digit_nine_one)
  then have stored: "filter (\<lambda>c. c \<notin> {43, 32, 45}) (format_phone_number nd phone)
               = sub_non_digits nd (format_phone_number nd phone)"
    by (rule digits_only_phone)
  have fails: "(\<exists>e. quote message = Inl e) \<longleftrightarrow>
        \<not> list_all (\<lambda>c. c \<le> 1114111 \<and> \<not> (55296 \<le> c \<and> c \<le> 57343)) message"
    using utf8_encode_fails [of message] utf8_encode_error [of message]
    by (auto simp add: quote_def split: sum.splits)
  show ?thesis
    using form stored fails digits_only_phone quote_chars by blast
qed

theorem send_whatsapp_url_form_witness:
  "list_all (\<lambda>c. is_digit ascii_nd c \<or> c \<in> {43, 32, 45}) (ustr ''+91 98765-43210'')
   \<and> quote (ustr ''Pay 500/- now'') = Inr (ustr ''Pay%20500/-%20now'')
   \<and> send_whatsapp_url (ustr ''+91 98765-43210'') (ustr ''Pay 500/- now'')
       = Inr (ustr ''https://wa.me/919876543210?text=Pay%20500/-%20now'')
   \<and> list_all (\<lambda>c. always_safe c \<or> c = 47 \<or> c = 37) (ustr ''Pay%20500/-%20now'')"
proof -
  have h: "list_all (\<lambda>c. is_digit ascii_nd c \<or> c \<in> {43, 32, 45}) (ustr ''+91 98765-43210'')"
    by (simp add: is_digit_def)
  have q: "quote (ustr ''Pay 500/- now'') = Inr (ustr ''Pay%20500/-%20now'')"
    by (simp add: quote_def utf8_char_def quote_byte_def always_safe_def hex_digit_def)
  from send_whatsapp_url_form [of "ustr ''+91 98765-43210''" "ustr ''Pay 500/- now''" ascii_nd] h q
  have "send_whatsapp_url (ustr ''+91 98765-43210'') (ustr ''Pay 500/- now'')
          = Inr (ustr ''https://wa.me/'' @ sub_non_digits ascii_nd (ustr ''+91 98765-43210'')
                 @ ustr ''?text='' @ ustr ''Pay%20500/-%20now'')"
    and "list_all (\<lambda>c. always_safe c \<or> c = 47 \<or> c = 37) (ustr ''Pay%20500/-%20now'')"
    by simp_all
  then show ?thesis
    using h q by (simp add: sub_non_digits_def is_digit_def)
qed

section \<open>Message formatting\<close>

lemma emit_Nil: "emit [] r = r"
  by (simp add: emit_def split: sum.splits)

lemma emit_Cons: "emit (c # s) r = emit [c] (emit s r)"
  by (simp add: emit_def split: sum.splits)

lemma str_format_text:
  "list_all (\<lambda>c. c \<noteq> 123 \<and> c \<noteq> 125) s \<Longrightarrow>
     str_format nd rest kwargs (s @ t) = emit s (str_format nd rest kwargs t)"
proof (induction s)
  case Nil
  then show ?case by (simp add: emit_Nil)
next
  case (Cons c s)
  then have "str_format nd rest kwargs ((c # s) @ t) = emit [c] (emit s (str_format nd rest kwargs t))"
    by simp
  then show ?case
    by (simp only: emit_Cons [symmetric])
qed

lemma scan_field_plain:
  "list_all (\<lambda>c. c \<noteq> 123 \<and> c \<noteq> 125 \<and> c \<noteq> 91 \<and> c \<noteq> 46 \<and> c \<noteq> 33 \<and> c \<noteq> 58) name \<Longrightarrow>
     scan_field (name @ 125 # t) = Simple name t"
  by (induction name) simp_all

lemma str_format_placeholder:
  assumes "plain_name nd name"
  shows "str_format nd rest kwargs (123 # name @ 125 # t) =
           (case kwargs name of
              None \<Rightarrow> Inl (KeyError name)
            | Some v \<Rightarrow> emit v (str_format nd rest kwargs t))"
proof -
  from assms obtain d name' where name: "name = d # name'"
    by (cases name) (simp_all add: plain_name_def)
  from assms have chars: "list_all (\<lambda>c. c \<noteq> 123 \<and> c \<noteq> 125 \<and> c \<noteq> 91 \<and> c \<noteq> 46 \<and> c \<noteq> 33 \<and> c \<noteq> 58) name"
    and not_number: "\<not> list_all (is_digit nd) name" and not_empty: "name \<noteq> []"
    by (simp_all add: plain_name_def)
  have scan: "scan_field (d # name' @ 125 # t) = Simple name t"
    using scan_field_plain [OF chars, of t] by (simp add: name)
  have d: "d \<noteq> 123"
    using chars by (simp add: name)
  have no_dot: "46 \<notin> set name"
    using chars by (auto simp add: list_all_iff)
  have step: "str_format nd rest kwargs (123 # d # u) =
      (case scan_field (d # u) of
         Unterminated \<Rightarrow> Inl ValueError
       | Delegated \<Rightarrow> rest (123 # d # u)
       | Simple name after \<Rightarrow>
           if 46 \<in> set name then rest (123 # d # u)
           else if name = [] then Inl IndexError
           else if list_all (is_digit nd) name then rest (123 # d # u)
           else
             (case kwargs name of
                None \<Rightarrow> Inl (KeyError name)
              | Some v \<Rightarrow> emit v (str_format nd rest kwargs after)))" for u
    using d by (simp del: scan_field.simps)
  have "str_format nd rest kwargs (123 # d # name' @ 125 # t) =
           (case kwargs name of
              None \<Rightarrow> Inl (KeyError name)
            | Some v \<Rightarrow> emit v (str_format nd rest kwargs t))"
    unfolding step scan using no_dot not_number not_empty by simp
  then show ?thesis
    by (simp add: name)
qed

lemma str_format_pieces:
  "list_all (plain_piece nd) ps \<Longrightarrow>
     str_format nd rest kwargs (template_of ps) = substitute kwargs ps"
  unfolding template_of_def
proof (induction ps)
  case Nil
  then show ?case by simp
next
  case (Cons p ps)
  then have IH: "str_format nd rest kwargs (concat (map piece_text ps)) = substitute kwargs ps"
    by simp
  show ?case
  proof (cases p)
    case (Text s)
    with Cons.prems show ?thesis
      by (simp add: str_format_text IH)
  next
    case OpenBrace
    then show ?thesis
      by (simp add: IH)
  next
    case CloseBrace
    then show ?thesis
      by (simp add: IH)
  next
    case (Placeholder name)
    with Cons.prems have "plain_name nd name"
      by simp
    then show ?thesis
      using str_format_placeholder [of nd name rest kwargs "concat (map piece_text ps)"]
      by (simp add: Placeholder IH del: str_format.simps split: option.splits)
  qed
qed

lemma substitute_known:
  "set (placeholders ps) \<subseteq> dom kwargs \<Longrightarrow> \<exists>out. substitute kwargs ps = Inr out"
proof (induction ps)
  case Nil
  then show ?case by simp
next
  case (Cons p ps)
  then show ?case
    by (cases p) (auto simp add: emit_def)
qed

lemma substitute_unknown:
  "\<not> set (placeholders ps) \<subseteq> dom kwargs \<Longrightarrow>
     \<exists>name. name \<in> set (placeholders ps) \<and> name \<notin> dom kwargs
        \<and> substitute kwargs ps = Inl (KeyError name)"
proof (induction ps)
  case Nil
  then show ?case by simp
next
  case (Cons p ps)
  show ?case
  proof (cases "set (placeholders ps) \<subseteq> dom kwargs")
    case True
    with Cons.prems obtain name where p: "p = Placeholder name" and "name \<notin> dom kwargs"
      by (cases p) auto
    then show ?thesis
      by (auto simp add: domIff)
  next
    case False
    with Cons.IH obtain name where name: "name \<in> set (placeholders ps)" "name \<notin> dom kwargs"
      "substitute kwargs ps = Inl (KeyError name)"
      by blast
    show ?thesis
    proof (cases p)
      case (Placeholder first)
      show ?thesis
      proof (cases "kwargs first")
        case None
        then show ?thesis
          using Placeholder by (auto simp add: domIff)
      next
        case (Some v)
        then show ?thesis
          using Placeholder name by (auto simp add: emit_def)
      qed
    qed (use name in \<open>auto simp add: emit_def\<close>)
  qed
qed

lemma substitute_no_braces:
  assumes "substitute kwargs ps = Inr out"
    and "list_all (plain_piece nd) ps"
    and "OpenBrace \<notin> set ps" and "CloseBrace \<notin> set ps"
    and "\<And>name v. kwargs name = Some v \<Longrightarrow> 123 \<notin> set v \<and> 125 \<notin> set v"
  shows "123 \<notin> set out \<and> 125 \<notin> set out"
  using assms(1-4)
proof (induction ps arbitrary: out)
  case Nil
  then show ?case by simp
next
  case (Cons p ps)
  show ?case
  proof (cases p)
    case (Text s)
    with Cons.prems obtain out' where "substitute kwargs ps = Inr out'" and "out = s @ out'"
      by (auto simp add: emit_def split: sum.splits)
    moreover have "123 \<notin> set s \<and> 125 \<notin> set s"
      using Cons.prems(2) Text by (auto simp add: list_all_iff)
    ultimately show ?thesis
      using Cons.IH [of out'] Cons.prems by simp
  next
    case OpenBrace
    with Cons.prems show ?thesis by simp
  next
    case CloseBrace
    with Cons.prems show ?thesis by simp
  next
    case (Placeholder name)
    with Cons.prems obtain v out' where v: "kwargs name = Some v"
      and "substitute kwargs ps = Inr out'" and "out = v @ out'"
      by (auto simp add: emit_def split: option.splits sum.splits)
    moreover have "123 \<notin> set v \<and> 125 \<notin> set v"
      using assms(5) [OF v] .
    ultimately show ?thesis
      using Cons.IH [of out'] Cons.prems by simp
  qed
qed

lemma dom_message_kwargs:
  "dom (map_of (message_kwargs rt member_data due_date today)) = set passed_names"
  by (simp add: message_kwargs_def passed_names_def dom_map_of_conv_image_fst Let_def)

text \<open>
  C7, as stated: formatting fails if and only if the template references a
  placeholder outside member_name, amount, due_date, overdue_days and phone. The call
  of \<^verbatim>\<open>format\<close> also passes \<^verbatim>\<open>court_name\<close> and \<^verbatim>\<open>membership_type\<close>: the template
  \<^verbatim>\<open>{court_name}\<close> references a placeholder outside the supported set, and it is
  formatted.
\<close>

theorem format_message_counterexample:
  "format_message
     \<lparr>rt_nd = ascii_nd, rt_strftime = strftime_dmy, rt_str_amount = str_int,
      rt_format_rest = (\<lambda>t. Inl ValueError)\<rparr>
     (ustr ''{court_name}'')
     \<lparr>md_member_name = Some (ustr ''Asha''), md_amount = Some 500,
      md_payment_date = Some (DateObj 738886),
      md_membership_type = Some (ustr ''Monthly Subscriber'')\<rparr> 738905
   = Inr (ustr ''KJ Badminton Academy'')
   \<and> ustr ''court_name'' \<notin> set supported_placeholders"
  by (simp add: format_message_def message_due_date_def message_membership_type_def
      message_kwargs_def to_date_def date_add_def MAXORDINAL_def supported_placeholders_def
      is_digit_def ascii_nd_def emit_def)

text \<open>
  C7, amended: for every member record whose due date can be computed, and every
  template made of text without braces, the escapes \<^verbatim>\<open>{{\<close> and \<^verbatim>\<open>}}\<close>, and
  placeholders with a plain name: formatting replaces each placeholder by its value.
  It succeeds when every placeholder is one of the seven names that the call passes
  (member_name, amount, due_date, membership_type, overdue_days, court_name, phone),
  and the result then holds no brace, provided the template has no escape and none
  of the values has a brace. It fails, with a \<^verbatim>\<open>KeyError\<close> for a placeholder
  outside these seven, when the template references such a placeholder.
\<close>

theorem format_message_placeholders:
  assumes "list_all (plain_piece (rt_nd rt)) ps"
    and "message_due_date member_data today = Inr due_date"
  shows "format_message rt (template_of ps) member_data today
           = substitute (map_of (message_kwargs rt member_data due_date today)) ps
         \<and> (set (placeholders ps) \<subseteq> set passed_names \<longrightarrow>
              (\<exists>out. format_message rt (template_of ps) member_data today = Inr out
                 \<and> (OpenBrace \<notin> set ps \<and> CloseBrace \<notin> set ps
                    \<and> list_all (\<lambda>(name, v). 123 \<notin> set v \<and> 125 \<notin> set v)
                         (message_kwargs rt member_data due_date today)
                    \<longrightarrow> 123 \<notin> set out \<and> 125 \<notin> set out)))
         \<and> (\<not> set (placeholders ps) \<subseteq> set passed_names \<longrightarrow>
              (\<exists>name. name \<in> set (placeholders ps) \<and> name \<notin> set passed_names
                 \<and> format_message rt (template_of ps) member_data today = Inl (KeyError name)))
         \<and> set supported_placeholders \<subseteq> set passed_names
         \<and> set passed_names - set supported_placeholders
             = {ustr ''membership_type'', ustr ''court_name''}"
proof -
  let ?kw = "map_of (message_kwargs rt member_data due_date today)"
  have run: "format_message rt (template_of ps) member_data today = substitute ?kw ps"
    using assms by (simp add: format_message_def str_format_pieces)
  have dom: "dom ?kw = set passed_names"
    by (rule dom_message_kwargs)
  have good: "\<exists>out. format_message rt (template_of ps) member_data today = Inr out
                 \<and> (OpenBrace \<notin> set ps \<and> CloseBrace \<notin> set ps
                    \<and> list_all (\<lambda>(name, v). 123 \<notin> set v \<and> 125 \<notin> set v)
                         (message_kwargs rt member_data due_date today)
                    \<longrightarrow> 123 \<notin> set out \<and> 125 \<notin> set out)"
    if "set (placeholders ps) \<subseteq> set passed_names"
  proof -
    from that obtain out where out: "substitute ?kw ps = Inr out"
      using substitute_known [of ps ?kw] dom by auto
    have "123 \<notin> set out \<and> 125 \<notin> set out"
      if clean: "OpenBrace \<notin> set ps \<and> CloseBrace \<notin> set ps
            \<and> list_all (\<lambda>(name, v). 123 \<notin> set v \<and> 125 \<notin> set v)
                 (message_kwargs rt member_data due_date today)"
    proof (rule substitute_no_braces [OF out assms(1)])
      show "OpenBrace \<notin> set ps" "CloseBrace \<notin> set ps"
        using clean by simp_all
    next
      fix name v
      assume "?kw name = Some v"
      then have "(name, v) \<in> set (message_kwargs rt member_data due_date today)"
        by (rule map_of_SomeD)
      with clean show "123 \<notin> set v \<and> 125 \<notin> set v"
        by (auto simp add: list_all_iff)
    qed
    with out run show ?thesis
      by simp
  qed
  have bad: "\<exists>name. name \<in> set (placeholders ps) \<and> name \<notin> set passed_names
                 \<and> format_message rt (template_of ps) member_data today = Inl (KeyError name)"
    if "\<not> set (placeholders ps) \<subseteq> set passed_names"
    using substitute_unknown [of ps ?kw] that run dom by simp
  have names: "set supported_placeholders \<subseteq> set passed_names"
    "set passed_names - set supported_placeholders = {ustr ''membership_type'', ustr ''court_name''}"
    by (auto simp add: supported_placeholders_def passed_names_def)
  show ?thesis
    using run good bad names by blast
qed

theorem format_message_placeholders_witness:
  "format_message
     \<lparr>rt_nd = ascii_nd, rt_strftime = strftime_dmy, rt_str_amount = str_int,
      rt_format_rest = (\<lambda>t. Inl ValueError)\<rparr>
     (ustr ''Hi {member_name}! Your payment of {amount} is due on {due_date}. Contact us: {phone}'')
     \<lparr>md_member_name = Some (ustr ''Asha''), md_amount = Some 500,
      md_payment_date = Some (DateObj 738886),
      md_membership_type = Some (ustr ''Monthly Subscriber'')\<rparr> 738905
   = Inr (ustr ''Hi Asha! Your payment of 500 is due on 31-01-2024. Contact us: +91-9876543210'')
   \<and> format_message
     \<lparr>rt_nd = ascii_nd, rt_strftime = strftime_dmy, rt_str_amount = str_int,
      rt_format_rest = (\<lambda>t. Inl ValueError)\<rparr>
     (ustr ''Dear {name}, {overdue_days} days'')
     \<lparr>md_member_name = Some (ustr ''Asha''), md_amount = Some 500,
      md_payment_date = Some (DateObj 738886),
      md_membership_type = Some (ustr ''Monthly Subscriber'')\<rparr> 738905
   = Inl (KeyError (ustr ''name''))"
  (is "format_message ?rt _ ?md ?today = _ \<and> _")
proof -
  let ?ps = "[Text (ustr ''Hi ''), Placeholder (ustr ''member_name''),
     Text (ustr ''! Your payment of ''), Placeholder (ustr ''amount''),
     Text (ustr '' is due on ''), Placeholder (ustr ''due_date''),
     Text (ustr ''. Contact us: ''), Placeholder (ustr ''phone'')]"
  let ?qs = "[Text (ustr ''Dear ''), Placeholder (ustr ''name''), Text (ustr '', ''),
     Placeholder (ustr ''overdue_days''), Text (ustr '' days'')]"
  have due: "message_due_date ?md ?today = Inr 738916"
    by (simp add: message_due_date_def message_membership_type_def to_date_def date_add_def
        MAXORDINAL_def)
  have ps: "list_all (plain_piece (rt_nd ?rt)) ?ps"
    by (simp add: plain_name_def is_digit_def)
  have qs: "list_all (plain_piece (rt_nd ?rt)) ?qs"
    by (simp add: plain_name_def is_digit_def)
  have date: "strftime_dmy 738916 = ustr ''31-01-2024''"
    by (simp add: strftime_dmy_def ord2ymd_def days_before_month_def is_leap_def two_digits_def
        str_int_def)
  have "format_message ?rt (template_of ?ps) ?md ?today
          = substitute (map_of (message_kwargs ?rt ?md 738916 ?today)) ?ps"
    using format_message_placeholders [OF ps due] by blast
  moreover have "format_message ?rt (template_of ?qs) ?md ?today
          = substitute (map_of (message_kwargs ?rt ?md 738916 ?today)) ?qs"
    using format_message_placeholders [OF qs due] by blast
  ultimately show ?thesis
    by (simp add: template_of_def message_kwargs_def message_membership_type_def emit_def
        str_int_def date)
qed

end
